theory Spec2Isabelle
  imports Complex_Main "HOL-Library.Multiset" "HOL-Library.Product_Lexorder"
begin

section \<open>Python values shared by the modules\<close>

text \<open>
  The package is Python 2 code (\<open>tri.py\<close> uses the \<open>print\<close> statement and imports
  \<open>cPickle\<close>): strings are byte strings, a file opened in text mode yields byte strings,
  and the classes \<open>\d\<close> and \<open>\s\<close> of \<open>re\<close> are the ASCII ones.

  The exceptions the modelled functions raise. \<open>ValueError\<close> carries its message;
  \<open>RuntimeError\<close> is raised without one (\<open>raise RuntimeError\<close>); \<open>IndexError\<close> and
  \<open>KeyError\<close> come from numpy indexing and dict lookup, \<open>TypeError\<close> from pandas.
\<close>

datatype error = ValueError string | RuntimeError | IndexError | KeyError string | TypeError

text \<open>
  Floats are modelled as reals: \<open>float(s)\<close> of a decimal literal
  \<open>digits\<close> or \<open>digits.digits\<close> is the number the literal denotes, and arithmetic
  is exact. The rounding of IEEE doubles is outside the model.
\<close>

definition digit_val :: "char \<Rightarrow> nat" where
  "digit_val c = of_char c - 48"

definition digits_val :: "string \<Rightarrow> nat" where
  "digits_val ds = foldl (\<lambda>n c. 10 * n + digit_val c) 0 ds"

definition pyfloat :: "string \<Rightarrow> real" where
  "pyfloat s =
     (let ip = takeWhile (\<lambda>c. c \<noteq> CHR ''.'') s;
          fp = drop 1 (dropWhile (\<lambda>c. c \<noteq> CHR ''.'') s)
      in real (digits_val (ip @ fp)) / 10 ^ length fp)"

subsection \<open>Regular expressions of the source\<close>

text \<open>
  Every pattern in the source is a sequence of literal strings and greedy repetitions
  \<open>[class]+\<close>. Python's \<open>re\<close> tries the longest repetition first and backtracks to
  shorter ones; the result of a match is the first success in that order.
  \<open>plus_splits P s\<close> lists the ways \<open>[P]+\<close> can match a prefix of \<open>s\<close>, longest
  first, each with the matched text and the rest; \<open>lit l s\<close> matches the literal \<open>l\<close>.
\<close>

fun plus_splits :: "(char \<Rightarrow> bool) \<Rightarrow> string \<Rightarrow> (string \<times> string) list" where
  "plus_splits P [] = []"
| "plus_splits P (c # cs) =
     (if P c then map (\<lambda>(g, r). (c # g, r)) (plus_splits P cs) @ [([c], cs)] else [])"

definition star_splits :: "(char \<Rightarrow> bool) \<Rightarrow> string \<Rightarrow> (string \<times> string) list" where
  \<comment> \<open>\<open>[P]*\<close>: as \<open>[P]+\<close>, then the empty match\<close>
  "star_splits P s = plus_splits P s @ [([], s)]"

fun tails :: "string \<Rightarrow> string list" where
  \<comment> \<open>the start positions \<open>re.search\<close> tries, left to right\<close>
  "tails [] = [[]]"
| "tails (c # cs) = (c # cs) # tails cs"

definition lit :: "string \<Rightarrow> string \<Rightarrow> string list" where
  "lit l s = (if take (length l) s = l then [drop (length l) s] else [])"

definition first_match :: "'a list \<Rightarrow> 'a option" where
  "first_match ms = (case ms of [] \<Rightarrow> None | m # _ \<Rightarrow> Some m)"

definition is_alpha :: "char \<Rightarrow> bool" where
  \<comment> \<open>\<open>[a-zA-Z]\<close>\<close>
  "is_alpha c \<longleftrightarrow> c \<in> set ''abcdefghijklmnopqrstuvwxyzABCDEFGHIJKLMNOPQRSTUVWXYZ''"

definition is_digit :: "char \<Rightarrow> bool" where
  \<comment> \<open>\<open>\d\<close> on a byte string (Python 2)\<close>
  "is_digit c \<longleftrightarrow> c \<in> set ''0123456789''"

definition is_space :: "char \<Rightarrow> bool" where
  \<comment> \<open>\<open>\s\<close> on a byte string (Python 2): space, \<open>\t \n \r \f \v\<close>\<close>
  "is_space c \<longleftrightarrow> c \<in> set [CHR '' '', CHR 0x09, CHR 0x0A, CHR 0x0D, CHR 0x0C, CHR 0x0B]"

section \<open>dartmouth/grid.py: DartmouthModelGrid\<close>

definition phot_systems :: "string list" where
  "phot_systems = [''SDSSugriz'', ''UBVRIJHKsKp'', ''WISE'', ''LSST'', ''UKIDSS'', ''HST_WFPC2'']"

definition phot_bands :: "string \<rightharpoonup> string list" where
  \<comment> \<open>the dict \<open>phot_bands\<close>: the canonical band names of each photometric system\<close>
  "phot_bands = map_of
     [(''SDSSugriz'', [''sdss_z'', ''sdss_i'', ''sdss_r'', ''sdss_u'', ''sdss_g'']),
      (''UBVRIJHKsKp'', [''B'', ''I'', ''H'', ''J'', ''Ks'', ''R'', ''U'', ''V'', ''D51'', ''Kp'']),
      (''WISE'', [''W4'', ''W3'', ''W2'', ''W1'']),
      (''LSST'', [''LSST_r'', ''LSST_u'', ''LSST_y'', ''LSST_z'', ''LSST_g'', ''LSST_i'']),
      (''UKIDSS'', [''Y'', ''H'', ''K'', ''J'', ''Z'']),
      (''HST_WFPC2'', [''WFPC2_F555W'', ''WFPC2_F606W'', ''WFPC2_F814W''])]"

definition canonical :: "string \<times> string \<Rightarrow> bool" where
  \<comment> \<open>a (photometric-system, canonical-band) pair: the band is listed for the system\<close>
  "canonical pb =
     (case phot_bands (fst pb) of None \<Rightarrow> False | Some bands \<Rightarrow> snd pb \<in> set bands)"

subsection \<open>get_band\<close>

definition band_m :: "string \<Rightarrow> (string \<times> string) option" where
  \<comment> \<open>\<open>re.match('([a-zA-Z]+)_([a-zA-Z_]+)', b)\<close>: groups 1 and 2\<close>
  "band_m b = first_match
     [(g1, g2). (g1, r1) \<leftarrow> plus_splits is_alpha b,
                r2 \<leftarrow> lit ''_'' r1,
                (g2, r3) \<leftarrow> plus_splits (\<lambda>c. is_alpha c \<or> c = CHR ''_'') r2]"

definition band_m2 :: "string \<Rightarrow> (string \<times> string) option" where
  \<comment> \<open>\<open>re.match('HST_([a-zA-Z\d]+)_([a-zA-Z_\d]+)', b)\<close>: groups 1 and 2\<close>
  "band_m2 b = first_match
     [(g1, g2). r0 \<leftarrow> lit ''HST_'' b,
                (g1, r1) \<leftarrow> plus_splits (\<lambda>c. is_alpha c \<or> is_digit c) r0,
                r2 \<leftarrow> lit ''_'' r1,
                (g2, r3) \<leftarrow> plus_splits (\<lambda>c. is_alpha c \<or> c = CHR ''_'' \<or> is_digit c) r2]"

definition band_aliases :: "string list" where
  \<comment> \<open>the names listed in the \<open>if\<close>/\<open>elif\<close> chain of \<open>get_band\<close>\<close>
  "band_aliases =
     [''u'', ''g'', ''r'', ''i'', ''z'',
      ''U'', ''B'', ''V'', ''R'', ''I'', ''J'', ''H'', ''Ks'',
      ''K'', ''kep'', ''Kepler'', ''Kp'',
      ''W1'', ''W2'', ''W3'', ''W4'',
      ''F555W'', ''F606W'', ''F814W'',
      ''WFPC2_F555W'', ''WFPC2_F606W'', ''WFPC2_F814W'']"

definition prefix_systems :: "string list" where
  \<comment> \<open>the prefixes before the first underscore that the last branch of \<open>get_band\<close>
      accepts: the photometric systems without an underscore in their name, \<open>UK\<close>, \<open>UKIRT\<close>\<close>
  "prefix_systems = [''SDSSugriz'', ''UBVRIJHKsKp'', ''WISE'', ''LSST'', ''UKIDSS'', ''UK'', ''UKIRT'']"

definition get_band_else :: "string \<Rightarrow> (string \<times> string) option" where
  \<comment> \<open>the final \<open>else\<close> branch: \<open>(phot, band)\<close> after the two \<open>if\<close>s, \<open>None\<close> while
      \<open>phot\<close> is still \<open>None\<close>; the \<open>if m2\<close> block runs second and overrides\<close>
  "get_band_else b =
     (let pb = (case band_m b of
                  None \<Rightarrow> None
                | Some (g1, g2) \<Rightarrow>
                    if g1 \<in> set phot_systems
                    then Some (g1, if g1 = ''LSST'' then b else g2)
                    else if g1 \<in> set [''UK'', ''UKIRT''] then Some (''UKIDSS'', g2)
                    else None)
      in case band_m2 b of
           None \<Rightarrow> pb
         | Some (h1, h2) \<Rightarrow>
             if ''HST_'' @ h1 \<in> set phot_systems
             then Some (''HST_'' @ h1, h1 @ ''_'' @ h2)
             else pb)"

definition get_band_phot :: "string \<Rightarrow> (string \<times> string) option" where
  \<comment> \<open>\<open>(phot, band)\<close> when the chain has run; \<open>None\<close> is \<open>phot is None\<close>\<close>
  "get_band_phot b =
     (if b \<in> set [''u'', ''g'', ''r'', ''i'', ''z''] then Some (''SDSSugriz'', ''sdss_'' @ b)
      else if b \<in> set [''U'', ''B'', ''V'', ''R'', ''I'', ''J'', ''H'', ''Ks'']
        then Some (''UBVRIJHKsKp'', b)
      else if b = ''K'' then Some (''UBVRIJHKsKp'', ''Ks'')
      else if b \<in> set [''kep'', ''Kepler'', ''Kp''] then Some (''UBVRIJHKsKp'', ''Kp'')
      else if b \<in> set [''W1'', ''W2'', ''W3'', ''W4''] then Some (''WISE'', b)
      else if b \<in> set [''F555W'', ''F606W'', ''F814W''] then Some (''HST_WFPC2'', ''WFPC2_'' @ b)
      else if b \<in> set [''WFPC2_F555W'', ''WFPC2_F606W'', ''WFPC2_F814W'']
        then Some (''HST_WFPC2'', b)
      else get_band_else b)"

definition get_band :: "string \<Rightarrow> error + (string \<times> string)" where
  "get_band b =
     (case get_band_phot b of
        None \<Rightarrow> Inl (ValueError (''Dartmouth Models cannot resolve band '' @ b @ ''!''))
      | Some pb \<Rightarrow> Inr pb)"

subsection \<open>get_feh\<close>

definition feh_m :: "string \<Rightarrow> (string \<times> string) option" where
  \<comment> \<open>\<open>re.search('feh([mp])(\d+)afe', filename)\<close>: groups 1 and 2\<close>
  "feh_m filename = first_match
     [(g1, g2). s \<leftarrow> tails filename,
                r0 \<leftarrow> lit ''feh'' s,
                g1 \<leftarrow> [''m'', ''p''],
                r1 \<leftarrow> lit g1 r0,
                (g2, r2) \<leftarrow> plus_splits is_digit r1,
                r3 \<leftarrow> lit ''afe'' r2]"

definition get_feh :: "string \<Rightarrow> real option" where
  \<comment> \<open>the function falls off its end when there is no match: \<open>None\<close>\<close>
  "get_feh filename =
     (case feh_m filename of
        None \<Rightarrow> None
      | Some (g1, g2) \<Rightarrow>
          let sign = (if g1 = ''p'' then 1 else - 1)
          in Some (pyfloat g2 / 10 * sign))"

subsection \<open>to_df\<close>





definition age_m :: "string \<Rightarrow> string option" where
  \<comment> \<open>\<open>re.match('#AGE=\s*(\d+\.\d+)\s+', line)\<close>: group 1\<close>
  "age_m line = first_match
     [d1 @ ''.'' @ d2. r0 \<leftarrow> lit ''#AGE='' line,
                       (w, r1) \<leftarrow> star_splits is_space r0,
                       (d1, r2) \<leftarrow> plus_splits is_digit r1,
                       r3 \<leftarrow> lit ''.'' r2,
                       (d2, r4) \<leftarrow> plus_splits is_digit r3,
                       (w', r5) \<leftarrow> plus_splits is_space r4]"

definition is_comment :: "string \<Rightarrow> bool" where
  \<comment> \<open>\<open>re.match('#', line)\<close>\<close>
  "is_comment line \<longleftrightarrow> lit ''#'' line \<noteq> []"

definition has_digit :: "string \<Rightarrow> bool" where
  \<comment> \<open>\<open>re.search('\d', line)\<close>\<close>
  "has_digit line \<longleftrightarrow> filter is_digit line \<noteq> []"

text \<open>
  The loop over the lines of the file. Its state is \<open>(ages, curage, i)\<close>;
  \<open>ages\<close> is a numpy array of fixed length, and \<open>ages[i] = curage\<close> raises
  \<open>IndexError\<close> for \<open>i\<close> at or beyond its length.
\<close>

fun age_loop :: "string list \<Rightarrow> real list \<times> real \<times> nat \<Rightarrow> error + real list \<times> real \<times> nat" where
  "age_loop [] st = Inr st"
| "age_loop (line # ls) (ages, curage, i) =
     (if is_comment line then
        (case age_m line of
           Some g \<Rightarrow> age_loop ls (ages, pyfloat g, i)
         | None \<Rightarrow> age_loop ls (ages, curage, i))
      else if has_digit line then
        (if i < length ages then age_loop ls (ages[i := curage], curage, i + 1)
         else Inl IndexError)
      else age_loop ls (ages, curage, i))"


subsection \<open>Vocabulary for the properties of get_feh and to_df\<close>

definition spec_feh_m :: "string \<Rightarrow> (string \<times> string) option" where
  \<comment> \<open>the pattern in the specification's words: \<open>feh\<close>, a sign letter \<open>m\<close> or \<open>p\<close>,
      a two-digit magnitude; leftmost occurrence\<close>
  "spec_feh_m filename = first_match
     [(g1, take 2 r1). s \<leftarrow> tails filename,
                       r0 \<leftarrow> lit ''feh'' s,
                       g1 \<leftarrow> [''m'', ''p''],
                       r1 \<leftarrow> lit g1 r0,
                       length (take 2 r1) = 2 \<and> list_all is_digit (take 2 r1)]"

definition spec_get_feh :: "string \<Rightarrow> real option" where
  \<comment> \<open>the specification's \<open>get_feh\<close>: the magnitude divided by 10, signed by the letter,
      \<open>None\<close> when the pattern is absent\<close>
  "spec_get_feh filename =
     (case spec_feh_m filename of
        None \<Rightarrow> None
      | Some (g1, g2) \<Rightarrow> Some (pyfloat g2 / 10 * (if g1 = ''p'' then 1 else - 1)))"

definition is_data :: "string \<Rightarrow> bool" where
  \<comment> \<open>the lines for which the loop of \<open>to_df\<close> stores an age: not a comment, with a digit\<close>
  "is_data line \<longleftrightarrow> \<not> is_comment line \<and> has_digit line"







subsection \<open>Example track files\<close>




subsection \<open>Paths\<close>

text \<open>
  \<open>ISOCHRONES\<close>, the root of the data directory, is imported from the package
  configuration; it is the argument \<open>isochrones\<close> of every function that builds a path.
\<close>

definition path_join :: "string \<Rightarrow> string \<Rightarrow> string" where
  \<comment> \<open>\<open>os.path.join(a, b)\<close> on POSIX: an absolute \<open>b\<close> replaces \<open>a\<close>\<close>
  "path_join a b =
     (if take 1 b = ''/'' then b
      else if a = [] \<or> last a = CHR ''/'' then a @ b
      else a @ ''/'' @ b)"

definition datadir :: "string \<Rightarrow> string" where
  "datadir isochrones = path_join isochrones ''dartmouth''"

subsection \<open>hdf_filename\<close>

definition hdf_filename :: "string \<Rightarrow> (string \<rightharpoonup> string) \<Rightarrow> string \<Rightarrow> error + string" where
  \<comment> \<open>\<open>self.kwargs\<close> is a dict; the format string has two fields and is given three
      arguments, of which \<open>str.format\<close> uses the first two\<close>
  "hdf_filename isochrones kwargs phot =
     (case kwargs ''afe'' of
        None \<Rightarrow> Inl (KeyError ''afe'')
      | Some afe \<Rightarrow>
          (case kwargs ''y'' of
             None \<Rightarrow> Inl (KeyError ''y'')
           | Some y \<Rightarrow>
               let afe_str = (if afe \<noteq> ''afep0'' then ''_'' @ afe else '''')
               in Inr (path_join (datadir isochrones) (phot @ afe_str @ ''.h5''))))"

subsection \<open>df_all\<close>

text \<open>
  The aggregated grid, row by row. Every row has the four columns the code names,
  \<open>EEP\<close>, \<open>MMo\<close>, \<open>age\<close> and \<open>feh\<close>; \<open>columns\<close> are the names of the remaining
  columns and \<open>vals\<close> a row's values in them, in the same order and of the same length.
  \<open>index\<close> is the row index \<open>df_all\<close> sets, one \<open>(feh, age)\<close> key per row.
\<close>

record grid_row =
  EEP :: real
  MMo :: real
  age :: real
  feh :: real
  vals :: "real list"

record grid_df =
  columns :: "string list"
  rows :: "grid_row list"

record indexed_df = grid_df +
  index :: "(real \<times> real) list"

fun rename_columns :: "string list \<Rightarrow> error + string list" where
  \<comment> \<open>the renaming for HST_WFPC2, on the names in \<open>columns\<close> (none of \<open>EEP\<close>, \<open>MMo\<close>,
      \<open>age\<close>, \<open>feh\<close> starts with \<open>F\<close>); \<open>col[0]\<close> raises \<open>IndexError\<close> on an empty name\<close>
  "rename_columns [] = Inr []"
| "rename_columns (col # cols) =
     (case col of
        [] \<Rightarrow> Inl IndexError
      | c # _ \<Rightarrow>
          (case rename_columns cols of
             Inl e \<Rightarrow> Inl e
           | Inr cols' \<Rightarrow> Inr ((if c = CHR ''F'' then ''WFPC2_'' @ col else col) # cols')))"

definition sort_values :: "grid_row list \<Rightarrow> grid_row list" where
  \<comment> \<open>\<open>df.sort_values(by=['feh','age','MMo','EEP'])\<close>: ascending, lexicographic in the
      four keys (rows equal in all four keep their order here)\<close>
  "sort_values rs = sort_key (\<lambda>r. (feh r, age r, MMo r, EEP r)) rs"

text \<open>
  \<open>df_all phot\<close> starts from the table \<open>super().df_all(phot)\<close> of the base class, which is
  not among the sources: it is the argument \<open>df\<close>. \<open>np.log10\<close> is the real logarithm;
  ages are positive (for other values numpy gives infinities and NaN, which the reals
  do not have).
\<close>

definition df_all :: "string \<Rightarrow> grid_df \<Rightarrow> error + indexed_df" where
  "df_all phot df =
     (let rows1 = map (\<lambda>r. r\<lparr>age := log 10 (age r * 1000000000)\<rparr>) (rows df);
          rows2 = sort_values rows1;
          idx = map (\<lambda>r. (feh r, age r)) rows2
      in if phot \<in> set [''HST_WFPC2''] then
           (case rename_columns (columns df) of
              Inl e \<Rightarrow> Inl e
            | Inr cols \<Rightarrow> Inr \<lparr>columns = cols, rows = rows2, index = idx\<rparr>)
         else Inr \<lparr>columns = columns df, rows = rows2, index = idx\<rparr>)"

section \<open>dartmouth/tri.py\<close>

definition tri_filename :: "string \<Rightarrow> string \<Rightarrow> string \<Rightarrow> string" where
  "tri_filename isochrones afe y =
     (let afe_suffix = (if afe = ''afep0'' then '''' else ''_'' @ afe);
          y_suffix = (if y = '''' then '''' else ''_'' @ y)
      in path_join isochrones (''dartmouth'' @ afe_suffix @ y_suffix @ ''.tri''))"

text \<open>
  scipy's \<open>LinearNDInterpolator(points, values)\<close> computes the Delaunay triangulation of
  \<open>points\<close>, keeps it as attribute \<open>tri\<close>, and stores \<open>values\<close> beside it. The
  triangulation algorithm is the argument \<open>delaunay\<close>; it may fail (degenerate input).
\<close>

type_synonym point = "real \<times> real \<times> real"

record 'tri interpolator =
  tri :: 'tri
  interp_values :: "real list"

definition interpnd :: "(point list \<Rightarrow> error + 'tri) \<Rightarrow> point list \<Rightarrow> real list \<Rightarrow> error + 'tri interpolator" where
  "interpnd delaunay pts mags =
     (case delaunay pts of
        Inl e \<Rightarrow> Inl e
      | Inr t \<Rightarrow> Inr \<lparr>tri = t, interp_values = mags\<rparr>)"

fun col_index :: "string \<Rightarrow> string list \<Rightarrow> nat option" where
  "col_index name [] = None"
| "col_index name (c # cs) =
     (if c = name then Some 0 else map_option Suc (col_index name cs))"

definition get_column :: "'a grid_df_scheme \<Rightarrow> string \<Rightarrow> error + real list" where
  \<comment> \<open>\<open>df[name]\<close>: \<open>KeyError\<close> for a name that is no column\<close>
  "get_column df name =
     (if name = ''EEP'' then Inr (map EEP (rows df))
      else if name = ''MMo'' then Inr (map MMo (rows df))
      else if name = ''age'' then Inr (map age (rows df))
      else if name = ''feh'' then Inr (map feh (rows df))
      else (case col_index name (columns df) of
              None \<Rightarrow> Inl (KeyError name)
            | Some j \<Rightarrow> Inr (map (\<lambda>r. vals r ! j) (rows df))))"

text \<open>
  \<open>write_tri\<close>. The grid \<open>DartmouthModelGrid(bands, afe=afe, y=y).df\<close> is built by code
  outside the sources and is the argument \<open>df\<close>. The file system is a map from paths
  to the pickled objects; the result is what was printed and the new file system or the
  exception. \<open>bands[0]\<close> raises \<open>IndexError\<close> on an empty list.
\<close>

definition write_tri ::
  "string \<Rightarrow> (point list \<Rightarrow> error + 'tri) \<Rightarrow> 'a grid_df_scheme \<Rightarrow>
   string option \<Rightarrow> string \<Rightarrow> string \<Rightarrow> string list \<Rightarrow> (string \<rightharpoonup> 'tri) \<Rightarrow>
   string list \<times> (error + (string \<rightharpoonup> 'tri))" where
  "write_tri isochrones delaunay df filename afe y bands fs =
     (let filename' = (case filename of None \<Rightarrow> tri_filename isochrones afe y | Some f \<Rightarrow> f);
          out = [''Writing afe='' @ afe @ '' y='' @ y @ '' to '' @ filename'];
          pts = map (\<lambda>r. (MMo r, age r, feh r)) (rows df)
      in case bands of
           [] \<Rightarrow> (out, Inl IndexError)
         | b # _ \<Rightarrow>
             (case get_column df b of
                Inl e \<Rightarrow> (out, Inl e)
              | Inr mags \<Rightarrow>
                  (case interpnd delaunay pts mags of
                     Inl e \<Rightarrow> (out, Inl e)
                   | Inr magfn \<Rightarrow> (out, Inr (fs(filename' \<mapsto> tri magfn))))))"

subsection \<open>Example grids\<close>

definition sdss_grid :: grid_df where
  \<comment> \<open>two points of one isochrone with their magnitudes in the SDSS band \<open>g\<close>\<close>
  "sdss_grid =
     \<lparr>columns = [''g''],
      rows = [\<lparr>EEP = 2, MMo = 1 / 10, age = 9, feh = 0, vals = [25 / 2]\<rparr>,
              \<lparr>EEP = 3, MMo = 3 / 25, age = 9, feh = 0, vals = [121 / 10]\<rparr>]\<rparr>"

definition ubv_grid :: grid_df where
  \<comment> \<open>the same two points with their magnitudes in the band \<open>V\<close>\<close>
  "ubv_grid =
     \<lparr>columns = [''V''],
      rows = [\<lparr>EEP = 2, MMo = 1 / 10, age = 9, feh = 0, vals = [12]\<rparr>,
              \<lparr>EEP = 3, MMo = 3 / 25, age = 9, feh = 0, vals = [23 / 2]\<rparr>]\<rparr>"

definition gyr_grid :: grid_df where
  \<comment> \<open>a table as the loader leaves it, ages in Gyr: two masses of the 1 Gyr isochrone\<close>
  "gyr_grid =
     \<lparr>columns = [''g''],
      rows = [\<lparr>EEP = 3, MMo = 3 / 25, age = 1, feh = 0, vals = [121 / 10]\<rparr>,
              \<lparr>EEP = 2, MMo = 1 / 10, age = 1, feh = 0, vals = [25 / 2]\<rparr>]\<rparr>"

section \<open>Persistence of a fitted model\<close>

text \<open>
  \<open>StarModel.save_hdf\<close> and \<open>StarModel.load_hdf\<close> are not among the sources; only the
  test \<open>_check_saving\<close> that calls them is. The file system holds, for each path, the
  container written there, and the list of paths with an open handle (one entry per
  handle), which is what \<open>tb.file._open_files.get_handlers_by_name\<close> looks up.
\<close>

record star_model =
  samples :: "real list list"
  ic_bands :: "string list"

record container =
  sample_table :: "real list list"
  band_list :: "string list"

record file_system =
  files :: "string \<rightharpoonup> container"
  open_files :: "string list"

datatype test_error = AssertionError | IOError

definition open_file :: "string \<Rightarrow> file_system \<Rightarrow> file_system" where
  "open_file filename st = st\<lparr>open_files := filename # open_files st\<rparr>"

definition close_file :: "string \<Rightarrow> file_system \<Rightarrow> file_system" where
  "close_file filename st = st\<lparr>open_files := remove1 filename (open_files st)\<rparr>"

definition save_hdf :: "string \<Rightarrow> star_model \<Rightarrow> file_system \<Rightarrow> file_system" where
  \<comment> \<open>Modelled from the spec: \<open>StarModel.save_hdf\<close> is missing from the sources. It
      persists the posterior sample table and the photometric band list in a container
      at the path, and leaves no handle on the file open.\<close>
  "save_hdf filename model st =
     (let st1 = open_file filename st;
          st2 = st1\<lparr>files := (files st1)(filename \<mapsto>
                  \<lparr>sample_table = samples model, band_list = ic_bands model\<rparr>)\<rparr>
      in close_file filename st2)"

definition load_hdf :: "string \<Rightarrow> file_system \<Rightarrow> (test_error + star_model) \<times> file_system" where
  \<comment> \<open>Modelled from the spec: \<open>StarModel.load_hdf\<close> is missing from the sources. It
      rebuilds the model from the container at the path, reproducing the sample table and
      the band list, and leaves no handle on the file open.\<close>
  "load_hdf filename st =
     (case files st filename of
        None \<Rightarrow> (Inl IOError, st)
      | Some c \<Rightarrow>
          (let st1 = open_file filename st;
               newmod = \<lparr>samples = sample_table c, ic_bands = band_list c\<rparr>
           in (Inr newmod, close_file filename st1)))"

definition get_handlers_by_name :: "file_system \<Rightarrow> string \<Rightarrow> string list" where
  "get_handlers_by_name st filename = filter (\<lambda>f. f = filename) (open_files st)"

definition isclose :: "real \<Rightarrow> real \<Rightarrow> bool" where
  \<comment> \<open>numpy's test with its default tolerances \<open>rtol = 1e-5\<close>, \<open>atol = 1e-8\<close>\<close>
  "isclose a b \<longleftrightarrow> \<bar>a - b\<bar> \<le> 1 / 100000000 + 1 / 100000 * \<bar>b\<bar>"

definition allclose :: "real list list \<Rightarrow> real list list \<Rightarrow> bool" where
  \<comment> \<open>\<open>np.allclose\<close> on two tables of the same shape\<close>
  "allclose a b \<longleftrightarrow> list_all2 (list_all2 isclose) a b"

definition check_saving :: "string \<Rightarrow> star_model \<Rightarrow> file_system \<Rightarrow> test_error + file_system" where
  \<comment> \<open>the test \<open>_check_saving\<close> (\<open>model\<close> is its \<open>mod\<close>), with the random file name as
      argument; a failed
      \<open>assert\<close> is \<open>AssertionError\<close>\<close>
  "check_saving filename model st =
     (let st1 = save_hdf filename model st in
      if length (get_handlers_by_name st1 filename) \<noteq> 0 then Inl AssertionError
      else
        (case load_hdf filename st1 of
           (Inl e, st2) \<Rightarrow> Inl e
         | (Inr newmod, st2) \<Rightarrow>
             if length (get_handlers_by_name st2 filename) \<noteq> 0 then Inl AssertionError
             else if \<not> allclose (samples model) (samples newmod) then Inl AssertionError
             else if ic_bands model \<noteq> ic_bands newmod then Inl AssertionError
             else Inr (st2\<lparr>files := (files st2)(filename := None)\<rparr>)))"

section \<open>Properties\<close>

subsection \<open>The regular-expression matcher\<close>

lemma plus_splits_append: "(g, r) \<in> set (plus_splits P s) \<Longrightarrow> s = g @ r"
  by (induction s arbitrary: g r) (auto split: if_splits)

lemma lit_append: "r \<in> set (lit l s) \<Longrightarrow> s = l @ r"
  by (auto simp: lit_def split: if_splits) (metis append_take_drop_id)

lemma first_match_None: "first_match ms = None \<longleftrightarrow> ms = []"
  by (cases ms) (simp_all add: first_match_def)

lemma plus_splits_greedy:
  "takeWhile P s = [] \<and> plus_splits P s = [] \<or>
   (\<exists>others. plus_splits P s = (takeWhile P s, dropWhile P s) # others \<and> takeWhile P s \<noteq> [] \<and>
      (\<forall>p\<in>set others. \<exists>c t. snd p = c # t \<and> P c))"
proof (induction s)
  case Nil
  then show ?case by simp
next
  case (Cons a s)
  show ?case
  proof (cases "P a")
    case False
    then show ?thesis by simp
  next
    case True
    from Cons.IH show ?thesis
    proof
      assume e: "takeWhile P s = [] \<and> plus_splits P s = []"
      then have "dropWhile P s = s" by (cases s) (auto split: if_splits)
      with e True show ?thesis by simp
    next
      assume "\<exists>others. plus_splits P s = (takeWhile P s, dropWhile P s) # others \<and>
        takeWhile P s \<noteq> [] \<and> (\<forall>p\<in>set others. \<exists>c t. snd p = c # t \<and> P c)"
      then obtain others where o: "plus_splits P s = (takeWhile P s, dropWhile P s) # others"
        and n: "takeWhile P s \<noteq> []" and r: "\<forall>p\<in>set others. \<exists>c t. snd p = c # t \<and> P c"
        by blast
      from n obtain c t where s: "s = c # t" "P c" by (cases s) (auto split: if_splits)
      let ?others = "map (\<lambda>(g, r). (a # g, r)) others @ [([a], s)]"
      from True o have 1: "plus_splits P (a # s) = (takeWhile P (a # s), dropWhile P (a # s)) # ?others"
        by simp
      from r s have 2: "\<forall>p\<in>set ?others. \<exists>c t. snd p = c # t \<and> P c" by auto
      from True have 3: "takeWhile P (a # s) \<noteq> []" by simp
      from 1 2 3 show ?thesis by blast
    qed
  qed
qed

lemma concat_map_Nil: "(\<And>x. x \<in> set xs \<Longrightarrow> f x = []) \<Longrightarrow> concat (map f xs) = []"
  by (induction xs) simp_all

lemma greedy_plus:
  assumes "\<And>g c t. P c \<Longrightarrow> f (g, c # t) = []"
  shows "concat (map f (plus_splits P s)) =
           (if takeWhile P s = [] then [] else f (takeWhile P s, dropWhile P s))"
proof -
  from plus_splits_greedy [of P s] show ?thesis
  proof
    assume "takeWhile P s = [] \<and> plus_splits P s = []"
    then show ?thesis by simp
  next
    assume "\<exists>others. plus_splits P s = (takeWhile P s, dropWhile P s) # others \<and>
        takeWhile P s \<noteq> [] \<and> (\<forall>p\<in>set others. \<exists>c t. snd p = c # t \<and> P c)"
    then obtain others where o: "plus_splits P s = (takeWhile P s, dropWhile P s) # others"
        and n: "takeWhile P s \<noteq> []" and r: "\<forall>p\<in>set others. \<exists>c t. snd p = c # t \<and> P c"
      by blast
    have "concat (map f others) = []"
    proof (rule concat_map_Nil)
      fix x assume "x \<in> set others"
      with r obtain c t where "snd x = c # t" "P c" by blast
      then have "x = (fst x, c # t)" by (cases x) simp
      with assms [OF \<open>P c\<close>, of "fst x" t] show "f x = []" by simp
    qed
    with o n show ?thesis by simp
  qed
qed


lemma first_match_plus:
  "first_match (map (\<lambda>(g, r). h g) (plus_splits P s)) =
     (if takeWhile P s = [] then None else Some (h (takeWhile P s)))"
  using plus_splits_greedy [of P s] by (auto simp: first_match_def)

lemma first_match_Nil: "first_match [] = None"
  by (simp add: first_match_def)

lemma is_alpha_not_us: "is_alpha c \<Longrightarrow> c \<noteq> CHR ''_''"
  by (auto simp: is_alpha_def)

lemma is_digit_not_us: "is_digit c \<Longrightarrow> c \<noteq> CHR ''_''"
  by (auto simp: is_digit_def)




subsection \<open>get_band\<close>

lemma band_m_eq:
  "band_m b =
     (let g1 = takeWhile is_alpha b; r1 = dropWhile is_alpha b;
          g2 = takeWhile (\<lambda>c. is_alpha c \<or> c = CHR ''_'') (drop 1 r1)
      in if g1 \<noteq> [] \<and> take 1 r1 = ''_'' \<and> g2 \<noteq> [] then Some (g1, g2) else None)"
proof -
  let ?P2 = "\<lambda>c. is_alpha c \<or> c = CHR ''_''"
  let ?f = "\<lambda>(g1, r1). concat (map (\<lambda>r2. map (\<lambda>(g2, r3). (g1, g2)) (plus_splits ?P2 r2)) (lit ''_'' r1))"
  have f0: "\<And>g c t. is_alpha c \<Longrightarrow> ?f (g, c # t) = []"
    by (simp add: lit_def is_alpha_not_us)
  have 1: "concat (map ?f (plus_splits is_alpha b)) =
      (if takeWhile is_alpha b = [] then [] else ?f (takeWhile is_alpha b, dropWhile is_alpha b))"
    by (rule greedy_plus) (rule f0)
  have 2: "\<And>(g1 :: string) r1. first_match (?f (g1, r1)) =
      (if take 1 r1 = ''_'' \<and> takeWhile ?P2 (drop 1 r1) \<noteq> []
       then Some (g1, takeWhile ?P2 (drop 1 r1)) else None)"
  proof -
    fix g1 :: string and r1
    have "first_match (map (\<lambda>(g2, r3). (g1, g2)) (plus_splits ?P2 (drop 1 r1))) =
        (if takeWhile ?P2 (drop 1 r1) = [] then None else Some (g1, takeWhile ?P2 (drop 1 r1)))"
      by (rule first_match_plus)
    then show "first_match (?f (g1, r1)) =
      (if take 1 r1 = ''_'' \<and> takeWhile ?P2 (drop 1 r1) \<noteq> []
       then Some (g1, takeWhile ?P2 (drop 1 r1)) else None)"
      by (simp add: lit_def first_match_Nil)
  qed
  have "band_m b = first_match (concat (map ?f (plus_splits is_alpha b)))"
    by (simp add: band_m_def)
  also have "\<dots> = (if takeWhile is_alpha b = [] then None
      else first_match (?f (takeWhile is_alpha b, dropWhile is_alpha b)))"
    unfolding 1 by (simp add: first_match_Nil)
  finally show ?thesis unfolding 2 by (simp add: Let_def)
qed

lemma band_m2_eq:
  "band_m2 (''HST_'' @ r0) =
     (let g1 = takeWhile (\<lambda>c. is_alpha c \<or> is_digit c) r0;
          r1 = dropWhile (\<lambda>c. is_alpha c \<or> is_digit c) r0;
          g2 = takeWhile (\<lambda>c. is_alpha c \<or> c = CHR ''_'' \<or> is_digit c) (drop 1 r1)
      in if g1 \<noteq> [] \<and> take 1 r1 = ''_'' \<and> g2 \<noteq> [] then Some (g1, g2) else None)"
proof -
  let ?P1 = "\<lambda>c. is_alpha c \<or> is_digit c"
  let ?P2 = "\<lambda>c. is_alpha c \<or> c = CHR ''_'' \<or> is_digit c"
  let ?f = "\<lambda>(g1, r1). concat (map (\<lambda>r2. map (\<lambda>(g2, r3). (g1, g2)) (plus_splits ?P2 r2)) (lit ''_'' r1))"
  have f0: "\<And>g c t. ?P1 c \<Longrightarrow> ?f (g, c # t) = []"
    using is_alpha_not_us is_digit_not_us by (auto simp: lit_def)
  have 1: "concat (map ?f (plus_splits ?P1 r0)) =
      (if takeWhile ?P1 r0 = [] then [] else ?f (takeWhile ?P1 r0, dropWhile ?P1 r0))"
    by (rule greedy_plus) (rule f0)
  have 2: "\<And>(g1 :: string) r1. first_match (?f (g1, r1)) =
      (if take 1 r1 = ''_'' \<and> takeWhile ?P2 (drop 1 r1) \<noteq> []
       then Some (g1, takeWhile ?P2 (drop 1 r1)) else None)"
  proof -
    fix g1 :: string and r1
    have "first_match (map (\<lambda>(g2, r3). (g1, g2)) (plus_splits ?P2 (drop 1 r1))) =
        (if takeWhile ?P2 (drop 1 r1) = [] then None else Some (g1, takeWhile ?P2 (drop 1 r1)))"
      by (rule first_match_plus)
    then show "first_match (?f (g1, r1)) =
      (if take 1 r1 = ''_'' \<and> takeWhile ?P2 (drop 1 r1) \<noteq> []
       then Some (g1, takeWhile ?P2 (drop 1 r1)) else None)"
      by (simp add: lit_def first_match_Nil)
  qed
  have "band_m2 (''HST_'' @ r0) = first_match (concat (map ?f (plus_splits ?P1 r0)))"
    by (simp add: band_m2_def lit_def)
  also have "\<dots> = (if takeWhile ?P1 r0 = [] then None
       else first_match (?f (takeWhile ?P1 r0, dropWhile ?P1 r0)))"
    unfolding 1 by (simp add: first_match_Nil)
  finally show ?thesis unfolding 2 by (simp add: Let_def)
qed

lemma band_m2_no_prefix: "(\<And>r0. b \<noteq> ''HST_'' @ r0) \<Longrightarrow> band_m2 b = None"
proof -
  assume a: "\<And>r0. b \<noteq> ''HST_'' @ r0"
  have "lit ''HST_'' b = []"
  proof (rule ccontr)
    assume "lit ''HST_'' b \<noteq> []"
    then obtain r where "r \<in> set (lit ''HST_'' b)" by (cases "lit ''HST_'' b") auto
    then have "b = ''HST_'' @ r" by (rule lit_append)
    with a show False by blast
  qed
  then show ?thesis by (simp add: band_m2_def first_match_Nil)
qed

lemma takeWhile_run:
  "list_all P xs \<Longrightarrow> \<not> P y \<Longrightarrow> takeWhile P (xs @ y # ys) = xs \<and> dropWhile P (xs @ y # ys) = y # ys"
  by (induction xs) simp_all

lemma takeWhile_Cons_nonempty: "takeWhile P s \<noteq> [] \<Longrightarrow> \<exists>c t. s = c # t \<and> P c"
  by (cases s) (auto split: if_splits)

lemma take1_eq: "take 1 r = [c] \<Longrightarrow> r = c # drop 1 r"
  by (cases r) simp_all

lemma prefix_systems_alpha: "sys \<in> set prefix_systems \<Longrightarrow> list_all is_alpha sys \<and> sys \<noteq> []"
  by (auto simp: prefix_systems_def is_alpha_def)

lemma alpha_not_wfpc2: "list_all is_alpha g \<Longrightarrow> g \<noteq> ''HST_WFPC2''"
proof
  assume "list_all is_alpha g" "g = ''HST_WFPC2''"
  then have "is_alpha CHR ''_''" by simp
  with is_alpha_not_us show False by blast
qed

lemma list_regroup:
  "x \<in> set [a, b, c, d, e, h] \<or> x \<in> set [u, v] \<longleftrightarrow> x \<in> set [a, b, c, d, e, u, v] \<or> x = h"
  by auto

lemma prefix_systems_or:
  "g \<in> set phot_systems \<or> g \<in> set [''UK'', ''UKIRT''] \<longleftrightarrow>
     g \<in> set prefix_systems \<or> g = ''HST_WFPC2''"
  unfolding prefix_systems_def phot_systems_def by (rule list_regroup)

lemma prefix_systems_iff:
  "list_all is_alpha g \<Longrightarrow>
     g \<in> set prefix_systems \<longleftrightarrow> g \<in> set phot_systems \<or> g \<in> set [''UK'', ''UKIRT'']"
  using prefix_systems_or [of g] alpha_not_wfpc2 [of g] by blast

lemma band_m_prefix:
  assumes "list_all is_alpha sys" "sys \<noteq> []" "is_alpha c \<or> c = CHR ''_''"
  shows "band_m (sys @ ''_'' @ c # t) =
           Some (sys, takeWhile (\<lambda>c. is_alpha c \<or> c = CHR ''_'') (c # t))"
proof -
  have n: "\<not> is_alpha CHR ''_''" using is_alpha_not_us by blast
  from takeWhile_run [OF assms(1) n, of "c # t"]
  have "takeWhile is_alpha (sys @ ''_'' @ c # t) = sys"
    "dropWhile is_alpha (sys @ ''_'' @ c # t) = CHR ''_'' # c # t"
    by simp_all
  with assms(2,3) show ?thesis unfolding band_m_eq Let_def by simp
qed

lemma band_m_shape:
  assumes "band_m b = Some (g1, g2)"
  shows "\<exists>c t. b = g1 @ ''_'' @ c # t \<and> (is_alpha c \<or> c = CHR ''_'') \<and> list_all is_alpha g1 \<and>
           g2 = takeWhile (\<lambda>c. is_alpha c \<or> c = CHR ''_'') (c # t)"
proof -
  let ?r1 = "dropWhile is_alpha b"
  let ?P2 = "\<lambda>c. is_alpha c \<or> c = CHR ''_''"
  from assms have g1: "g1 = takeWhile is_alpha b" and t: "take 1 ?r1 = ''_''"
    and n: "takeWhile ?P2 (drop 1 ?r1) \<noteq> []" and g2: "g2 = takeWhile ?P2 (drop 1 ?r1)"
    unfolding band_m_eq Let_def by (simp_all split: if_splits)
  from t obtain r where r: "?r1 = CHR ''_'' # r" by (cases ?r1) simp_all
  with n have "takeWhile ?P2 r \<noteq> []" by simp
  from takeWhile_Cons_nonempty [OF this] obtain c t where ct: "r = c # t" "?P2 c" by blast
  have "b = takeWhile is_alpha b @ ?r1" by simp
  with g1 r ct have 1: "b = g1 @ ''_'' @ c # t" by simp
  from g1 have 2: "list_all is_alpha g1" by (simp add: list_all_iff) (meson set_takeWhileD)
  from g2 r ct have 3: "g2 = takeWhile ?P2 (c # t)" by simp
  from 1 2 3 ct(2) show ?thesis by blast
qed

lemma band_m2_prefix:
  assumes "is_alpha c \<or> c = CHR ''_'' \<or> is_digit c"
  shows "band_m2 (''HST_WFPC2_'' @ c # t) =
           Some (''WFPC2'', takeWhile (\<lambda>c. is_alpha c \<or> c = CHR ''_'' \<or> is_digit c) (c # t))"
proof -
  let ?P1 = "\<lambda>c. is_alpha c \<or> is_digit c"
  have a: "list_all ?P1 ''WFPC2''" by (simp add: is_alpha_def is_digit_def)
  have n: "\<not> ?P1 CHR ''_''" using is_alpha_not_us is_digit_not_us by blast
  from takeWhile_run [of ?P1, OF a n, of "c # t"]
  have "takeWhile ?P1 (''WFPC2'' @ ''_'' @ c # t) = ''WFPC2''"
    "dropWhile ?P1 (''WFPC2'' @ ''_'' @ c # t) = CHR ''_'' # c # t"
    by simp_all
  with assms have "band_m2 (''HST_'' @ (''WFPC2'' @ ''_'' @ c # t)) =
      Some (''WFPC2'', takeWhile (\<lambda>c. is_alpha c \<or> c = CHR ''_'' \<or> is_digit c) (c # t))"
    unfolding band_m2_eq Let_def by simp
  then show ?thesis by simp
qed

lemma band_m2_shape:
  assumes "band_m2 b = Some (h1, h2)"
  shows "\<exists>c t. b = ''HST_'' @ h1 @ ''_'' @ c # t \<and> (is_alpha c \<or> c = CHR ''_'' \<or> is_digit c) \<and>
           h2 = takeWhile (\<lambda>c. is_alpha c \<or> c = CHR ''_'' \<or> is_digit c) (c # t)"
proof -
  let ?P1 = "\<lambda>c. is_alpha c \<or> is_digit c"
  let ?P2 = "\<lambda>c. is_alpha c \<or> c = CHR ''_'' \<or> is_digit c"
  from assms band_m2_no_prefix [of b] obtain r0 where b: "b = ''HST_'' @ r0" by fastforce
  let ?r1 = "dropWhile ?P1 r0"
  from assms have h1: "h1 = takeWhile ?P1 r0" and t: "take 1 ?r1 = ''_''"
    and n: "takeWhile ?P2 (drop 1 ?r1) \<noteq> []" and h2: "h2 = takeWhile ?P2 (drop 1 ?r1)"
    unfolding b band_m2_eq Let_def by (simp_all split: if_splits)
  from t obtain r where r: "?r1 = CHR ''_'' # r" by (cases ?r1) simp_all
  with n have "takeWhile ?P2 r \<noteq> []" by simp
  from takeWhile_Cons_nonempty [OF this] obtain c t where ct: "r = c # t" "?P2 c" by blast
  have "r0 = takeWhile ?P1 r0 @ ?r1" by simp
  with h1 r ct have "r0 = h1 @ ''_'' @ c # t" by simp
  with b have 1: "b = ''HST_'' @ h1 @ ''_'' @ c # t" by simp
  from h2 r ct have 3: "h2 = takeWhile ?P2 (c # t)" by simp
  from 1 3 ct(2) show ?thesis by blast
qed

lemma hst_phot: "''HST_'' @ h1 \<in> set phot_systems \<longleftrightarrow> h1 = ''WFPC2''"
  by (simp add: phot_systems_def)

lemma not_hst_prefix:
  assumes "sys \<in> set prefix_systems"
  shows "sys @ ''_'' @ r \<noteq> ''HST_'' @ r0"
proof
  assume e: "sys @ ''_'' @ r = ''HST_'' @ r0"
  have n: "\<not> is_alpha CHR ''_''" using is_alpha_not_us by blast
  from prefix_systems_alpha [OF assms] have a: "list_all is_alpha sys" by blast
  have h: "list_all is_alpha ''HST''" by (simp add: is_alpha_def)
  from takeWhile_run [OF a n, of r] have "takeWhile is_alpha (sys @ ''_'' @ r) = sys" by simp
  moreover from takeWhile_run [OF h n, of r0] have "takeWhile is_alpha (''HST_'' @ r0) = ''HST''"
    by simp
  ultimately have "sys = ''HST''" using e by simp
  with assms show False by (simp add: prefix_systems_def)
qed

lemma list7_cases:
  assumes "x \<in> set [a, b, c, d, e, f, g]"
  obtains "x = a" | "x = b" | "x = c" | "x = d" | "x = e" | "x = f" | "x = g"
  using assms by auto

lemma prefix_cases:
  assumes "sys \<in> set prefix_systems"
  obtains "sys = ''SDSSugriz''" | "sys = ''UBVRIJHKsKp''" | "sys = ''WISE''"
    | "sys = ''LSST''" | "sys = ''UKIDSS''" | "sys = ''UK''" | "sys = ''UKIRT''"
  by (rule list7_cases [OF assms [unfolded prefix_systems_def]])

lemma get_band_else_m:
  assumes m: "band_m b = Some (g1, g2)" and m2: "band_m2 b = None"
    and g: "g1 \<in> set prefix_systems"
  shows "get_band_else b =
           Some (if g1 \<in> set [''UK'', ''UKIRT''] then ''UKIDSS'' else g1,
                 if g1 = ''LSST'' then b else g2)"
  using g
proof (cases rule: prefix_cases)
  case 1
  show ?thesis unfolding get_band_else_def m m2 Let_def by (simp add: 1 phot_systems_def)
next
  case 2
  show ?thesis unfolding get_band_else_def m m2 Let_def by (simp add: 2 phot_systems_def)
next
  case 3
  show ?thesis unfolding get_band_else_def m m2 Let_def by (simp add: 3 phot_systems_def)
next
  case 4
  show ?thesis unfolding get_band_else_def m m2 Let_def by (simp add: 4 phot_systems_def)
next
  case 5
  show ?thesis unfolding get_band_else_def m m2 Let_def by (simp add: 5 phot_systems_def)
next
  case 6
  show ?thesis unfolding get_band_else_def m m2 Let_def by (simp add: 6 phot_systems_def)
next
  case 7
  show ?thesis unfolding get_band_else_def m m2 Let_def by (simp add: 7 phot_systems_def)
qed

lemma get_band_else_prefix:
  assumes s: "sys \<in> set prefix_systems" and c: "is_alpha c \<or> c = CHR ''_''"
  shows "get_band_else (sys @ ''_'' @ c # t) =
           Some (if sys \<in> set [''UK'', ''UKIRT''] then ''UKIDSS'' else sys,
                 if sys = ''LSST'' then sys @ ''_'' @ c # t
                 else takeWhile (\<lambda>c. is_alpha c \<or> c = CHR ''_'') (c # t))"
proof -
  from prefix_systems_alpha [OF s] have a: "list_all is_alpha sys" "sys \<noteq> []" by blast+
  have m: "band_m (sys @ ''_'' @ c # t) =
      Some (sys, takeWhile (\<lambda>c. is_alpha c \<or> c = CHR ''_'') (c # t))"
    using a c by (rule band_m_prefix)
  have m2: "band_m2 (sys @ ''_'' @ c # t) = None"
    by (rule band_m2_no_prefix) (rule not_hst_prefix [OF s])
  from m m2 s show ?thesis by (rule get_band_else_m)
qed

lemma get_band_else_hst:
  assumes "is_alpha c \<or> c = CHR ''_'' \<or> is_digit c"
  shows "get_band_else (''HST_WFPC2_'' @ c # t) =
           Some (''HST_WFPC2'',
                 ''WFPC2_'' @ takeWhile (\<lambda>c. is_alpha c \<or> c = CHR ''_'' \<or> is_digit c) (c # t))"
  unfolding get_band_else_def band_m2_prefix [OF assms] Let_def
  by (simp add: phot_systems_def)

lemma get_band_else_Some:
  assumes "get_band_else b = Some p"
  shows "(\<exists>sys c t. b = sys @ ''_'' @ c # t \<and> sys \<in> set prefix_systems \<and>
            (is_alpha c \<or> c = CHR ''_'')) \<or>
         (\<exists>c t. b = ''HST_WFPC2_'' @ c # t \<and> (is_alpha c \<or> c = CHR ''_'' \<or> is_digit c))"
proof (cases "\<exists>h1 h2. band_m2 b = Some (h1, h2) \<and> ''HST_'' @ h1 \<in> set phot_systems")
  case True
  then obtain h1 h2 where m2: "band_m2 b = Some (h1, h2)" and "''HST_'' @ h1 \<in> set phot_systems"
    by blast
  then have h1: "h1 = ''WFPC2''" by (simp only: hst_phot)
  from band_m2_shape [OF m2] obtain c t where
    "b = ''HST_'' @ h1 @ ''_'' @ c # t" "is_alpha c \<or> c = CHR ''_'' \<or> is_digit c" by blast
  with h1 have "b = ''HST_WFPC2_'' @ c # t" by simp
  with \<open>is_alpha c \<or> c = CHR ''_'' \<or> is_digit c\<close> show ?thesis by blast
next
  case False
  with assms obtain g1 g2 where m: "band_m b = Some (g1, g2)"
    and g: "g1 \<in> set phot_systems \<or> g1 \<in> set [''UK'', ''UKIRT'']"
    unfolding get_band_else_def Let_def
    by (auto split: option.splits if_splits)
  from band_m_shape [OF m] obtain c t where
    b: "b = g1 @ ''_'' @ c # t" and c: "is_alpha c \<or> c = CHR ''_''" and a: "list_all is_alpha g1"
    by blast
  from g prefix_systems_iff [OF a] have "g1 \<in> set prefix_systems" by blast
  with b c show ?thesis by blast
qed

lemma get_band_else_None_iff:
  "get_band_else b = None \<longleftrightarrow>
     \<not> (\<exists>sys c t. b = sys @ ''_'' @ c # t \<and> sys \<in> set prefix_systems \<and>
            (is_alpha c \<or> c = CHR ''_'')) \<and>
     \<not> (\<exists>c t. b = ''HST_WFPC2_'' @ c # t \<and> (is_alpha c \<or> c = CHR ''_'' \<or> is_digit c))"
proof
  assume n: "get_band_else b = None"
  show "\<not> (\<exists>sys c t. b = sys @ ''_'' @ c # t \<and> sys \<in> set prefix_systems \<and>
            (is_alpha c \<or> c = CHR ''_'')) \<and>
     \<not> (\<exists>c t. b = ''HST_WFPC2_'' @ c # t \<and> (is_alpha c \<or> c = CHR ''_'' \<or> is_digit c))"
  proof (intro conjI notI)
    assume "\<exists>sys c t. b = sys @ ''_'' @ c # t \<and> sys \<in> set prefix_systems \<and>
            (is_alpha c \<or> c = CHR ''_'')"
    then obtain sys c t where "b = sys @ ''_'' @ c # t" "sys \<in> set prefix_systems"
      "is_alpha c \<or> c = CHR ''_''" by blast
    with get_band_else_prefix [of sys c t] n show False by simp
  next
    assume "\<exists>c t. b = ''HST_WFPC2_'' @ c # t \<and> (is_alpha c \<or> c = CHR ''_'' \<or> is_digit c)"
    then obtain c t where "b = ''HST_WFPC2_'' @ c # t" "is_alpha c \<or> c = CHR ''_'' \<or> is_digit c"
      by blast
    with get_band_else_hst [of c t] n show False by simp
  qed
next
  assume a: "\<not> (\<exists>sys c t. b = sys @ ''_'' @ c # t \<and> sys \<in> set prefix_systems \<and>
            (is_alpha c \<or> c = CHR ''_'')) \<and>
     \<not> (\<exists>c t. b = ''HST_WFPC2_'' @ c # t \<and> (is_alpha c \<or> c = CHR ''_'' \<or> is_digit c))"
  show "get_band_else b = None"
  proof (cases "get_band_else b")
    case None
    then show ?thesis .
  next
    case (Some p)
    from get_band_else_Some [OF Some] a show ?thesis by blast
  qed
qed

lemma get_band_aliases:
  "list_all (\<lambda>b. case get_band b of Inl e \<Rightarrow> False | Inr p \<Rightarrow> canonical p) band_aliases"
  by (simp add: band_aliases_def get_band_def get_band_phot_def canonical_def phot_bands_def)

lemma aliases_no_prefix:
  "list_all (\<lambda>a. takeWhile is_alpha a \<notin> set prefix_systems \<and> takeWhile is_alpha a \<noteq> ''HST'')
     band_aliases"
  by (simp add: band_aliases_def prefix_systems_def is_alpha_def)

lemma get_band_phot_else: "b \<notin> set band_aliases \<Longrightarrow> get_band_phot b = get_band_else b"
  by (simp add: get_band_phot_def band_aliases_def)

lemma prefix_not_alias:
  assumes "sys \<in> set prefix_systems"
  shows "sys @ ''_'' @ r \<notin> set band_aliases"
proof
  assume "sys @ ''_'' @ r \<in> set band_aliases"
  with aliases_no_prefix have "takeWhile is_alpha (sys @ ''_'' @ r) \<notin> set prefix_systems"
    unfolding list_all_iff by blast
  moreover have "takeWhile is_alpha (sys @ ''_'' @ r) = sys"
    using takeWhile_run [of is_alpha sys "CHR ''_''" r] prefix_systems_alpha [OF assms]
      is_alpha_not_us by auto
  ultimately show False using assms by simp
qed

lemma hst_not_alias: "''HST_WFPC2_'' @ r \<notin> set band_aliases"
proof
  assume "''HST_WFPC2_'' @ r \<in> set band_aliases"
  with aliases_no_prefix have "takeWhile is_alpha (''HST_WFPC2_'' @ r) \<noteq> ''HST''"
    unfolding list_all_iff by blast
  moreover have "takeWhile is_alpha (''HST_WFPC2_'' @ r) = ''HST''"
    by (simp add: is_alpha_def)
  ultimately show False by simp
qed

lemma get_band_prefix_clean:
  assumes s: "sys \<in> set prefix_systems" and r: "r \<noteq> []"
    and a: "list_all (\<lambda>c. is_alpha c \<or> c = CHR ''_'') r"
  shows "get_band (sys @ ''_'' @ r) =
           Inr (if sys \<in> set [''UK'', ''UKIRT''] then ''UKIDSS'' else sys,
                if sys = ''LSST'' then sys @ ''_'' @ r else r)"
proof -
  from r obtain c t where ct: "r = c # t" by (cases r) auto
  with a have c: "is_alpha c \<or> c = CHR ''_''" by simp
  from a have tw: "takeWhile (\<lambda>c. is_alpha c \<or> c = CHR ''_'') r = r"
    by (simp add: takeWhile_eq_all_conv list_all_iff)
  from get_band_else_prefix [OF s c, of t] tw ct
  have "get_band_else (sys @ ''_'' @ r) =
      Some (if sys \<in> set [''UK'', ''UKIRT''] then ''UKIDSS'' else sys,
            if sys = ''LSST'' then sys @ ''_'' @ r else r)"
    by simp
  with get_band_phot_else [OF prefix_not_alias [OF s, of r]] show ?thesis
    by (simp add: get_band_def)
qed

lemma get_band_hst_clean:
  assumes r: "r \<noteq> []" and a: "list_all (\<lambda>c. is_alpha c \<or> c = CHR ''_'' \<or> is_digit c) r"
  shows "get_band (''HST_WFPC2_'' @ r) = Inr (''HST_WFPC2'', ''WFPC2_'' @ r)"
proof -
  from r obtain c t where ct: "r = c # t" by (cases r) auto
  with a have c: "is_alpha c \<or> c = CHR ''_'' \<or> is_digit c" by simp
  from a have tw: "takeWhile (\<lambda>c. is_alpha c \<or> c = CHR ''_'' \<or> is_digit c) r = r"
    by (simp add: takeWhile_eq_all_conv list_all_iff)
  from get_band_else_hst [OF c, of t] tw ct
  have "get_band_else (''HST_WFPC2_'' @ r) = Some (''HST_WFPC2'', ''WFPC2_'' @ r)"
    by simp
  with get_band_phot_else [OF hst_not_alias [of r]] show ?thesis
    by (simp add: get_band_def)
qed

lemma get_band_raises_iff:
  assumes "b \<notin> set band_aliases"
  shows "get_band b = Inl (ValueError (''Dartmouth Models cannot resolve band '' @ b @ ''!'')) \<longleftrightarrow>
     \<not> (\<exists>sys c t. b = sys @ ''_'' @ c # t \<and> sys \<in> set prefix_systems \<and>
            (is_alpha c \<or> c = CHR ''_'')) \<and>
     \<not> (\<exists>c t. b = ''HST_WFPC2_'' @ c # t \<and> (is_alpha c \<or> c = CHR ''_'' \<or> is_digit c))"
proof -
  have "get_band b = Inl (ValueError (''Dartmouth Models cannot resolve band '' @ b @ ''!'')) \<longleftrightarrow>
      get_band_else b = None"
    by (simp add: get_band_def get_band_phot_else [OF assms] split: option.splits)
  then show ?thesis by (simp only: get_band_else_None_iff)
qed

lemma get_band_alias_canonical:
  assumes "b \<in> set band_aliases"
  shows "\<exists>p. get_band b = Inr p \<and> canonical p"
proof -
  from assms get_band_aliases
  have "case get_band b of Inl e \<Rightarrow> False | Inr p \<Rightarrow> canonical p"
    unfolding list_all_iff by blast
  then show ?thesis by (cases "get_band b") simp_all
qed

lemma get_band_else_phot: "get_band_else b = Some (phot, band) \<Longrightarrow> phot \<in> set phot_systems"
  unfolding get_band_else_def Let_def
  by (auto split: option.splits if_splits simp: phot_systems_def)

lemma get_band_phot_systems: "get_band_phot b = Some (phot, band) \<Longrightarrow> phot \<in> set phot_systems"
  unfolding get_band_phot_def
  by (auto split: if_splits dest: get_band_else_phot simp: phot_systems_def)

lemma get_band_total:
  "(\<exists>phot band. get_band b = Inr (phot, band) \<and> phot \<in> set phot_systems) \<or>
   get_band b = Inl (ValueError (''Dartmouth Models cannot resolve band '' @ b @ ''!''))"
proof (cases "get_band_phot b")
  case None
  then show ?thesis by (simp add: get_band_def)
next
  case (Some pb)
  obtain phot band where pb: "pb = (phot, band)" by (cases pb)
  with Some have "phot \<in> set phot_systems" by (auto dest: get_band_phot_systems)
  with Some pb show ?thesis by (simp add: get_band_def)
qed

text \<open>
  C1 (amended). \<open>get_band\<close> resolves \<open>g\<close> to (SDSSugriz, sdss_g), \<open>K\<close> to
  (UBVRIJHKsKp, Ks) and \<open>F555W\<close> to (HST_WFPC2, WFPC2_F555W), and every name of its alias
  table to a pair whose band is listed in \<open>phot_bands\<close> for its system. For a token
  outside the table it raises the \<open>ValueError\<close> naming the band exactly when the token
  has neither the form \<open>prefix_x...\<close>, with the prefix one of SDSSugriz, UBVRIJHKsKp,
  WISE, LSST, UKIDSS, UK, UKIRT and \<open>x\<close> a letter or underscore, nor the form
  \<open>HST_WFPC2_x...\<close> with \<open>x\<close> a letter, digit or underscore. A token of one of these
  forms returns a pair built from the token: the band is not checked against
  \<open>phot_bands\<close>. When the rest after the prefix consists of letters and underscores
  only, the pair is the system (UKIDSS for UK and UKIRT) with that rest as band (the
  whole token for LSST); \<open>HST_WFPC2_r\<close> gives (HST_WFPC2, WFPC2_r). Every pair returned
  has its system in \<open>phot_systems\<close>.
\<close>

theorem get_band_resolves:
  "get_band ''g'' = Inr (''SDSSugriz'', ''sdss_g'') \<and>
   get_band ''K'' = Inr (''UBVRIJHKsKp'', ''Ks'') \<and>
   get_band ''F555W'' = Inr (''HST_WFPC2'', ''WFPC2_F555W'') \<and>
   (\<forall>b\<in>set band_aliases. \<exists>p. get_band b = Inr p \<and> canonical p) \<and>
   (\<forall>b. b \<notin> set band_aliases \<longrightarrow>
      (get_band b = Inl (ValueError (''Dartmouth Models cannot resolve band '' @ b @ ''!'')) \<longleftrightarrow>
       \<not> (\<exists>sys c t. b = sys @ ''_'' @ c # t \<and> sys \<in> set prefix_systems \<and>
              (is_alpha c \<or> c = CHR ''_'')) \<and>
       \<not> (\<exists>c t. b = ''HST_WFPC2_'' @ c # t \<and> (is_alpha c \<or> c = CHR ''_'' \<or> is_digit c)))) \<and>
   (\<forall>sys r. sys \<in> set prefix_systems \<and> r \<noteq> [] \<and>
        list_all (\<lambda>c. is_alpha c \<or> c = CHR ''_'') r \<longrightarrow>
      get_band (sys @ ''_'' @ r) =
        Inr (if sys \<in> set [''UK'', ''UKIRT''] then ''UKIDSS'' else sys,
             if sys = ''LSST'' then sys @ ''_'' @ r else r)) \<and>
   (\<forall>r. r \<noteq> [] \<and> list_all (\<lambda>c. is_alpha c \<or> c = CHR ''_'' \<or> is_digit c) r \<longrightarrow>
      get_band (''HST_WFPC2_'' @ r) = Inr (''HST_WFPC2'', ''WFPC2_'' @ r)) \<and>
   (\<forall>b. (\<exists>phot band. get_band b = Inr (phot, band) \<and> phot \<in> set phot_systems) \<or>
        get_band b = Inl (ValueError (''Dartmouth Models cannot resolve band '' @ b @ ''!'')))"
proof (intro conjI allI impI ballI)
  show "get_band ''g'' = Inr (''SDSSugriz'', ''sdss_g'')"
    by (simp add: get_band_def get_band_phot_def)
  show "get_band ''K'' = Inr (''UBVRIJHKsKp'', ''Ks'')"
    by (simp add: get_band_def get_band_phot_def)
  show "get_band ''F555W'' = Inr (''HST_WFPC2'', ''WFPC2_F555W'')"
    by (simp add: get_band_def get_band_phot_def)
next
  fix b assume "b \<in> set band_aliases"
  then show "\<exists>p. get_band b = Inr p \<and> canonical p" by (rule get_band_alias_canonical)
next
  fix b assume "b \<notin> set band_aliases"
  then show "get_band b = Inl (ValueError (''Dartmouth Models cannot resolve band '' @ b @ ''!'')) \<longleftrightarrow>
       \<not> (\<exists>sys c t. b = sys @ ''_'' @ c # t \<and> sys \<in> set prefix_systems \<and>
              (is_alpha c \<or> c = CHR ''_'')) \<and>
       \<not> (\<exists>c t. b = ''HST_WFPC2_'' @ c # t \<and> (is_alpha c \<or> c = CHR ''_'' \<or> is_digit c))"
    by (rule get_band_raises_iff)
next
  fix sys r
  assume "sys \<in> set prefix_systems \<and> r \<noteq> [] \<and> list_all (\<lambda>c. is_alpha c \<or> c = CHR ''_'') r"
  then show "get_band (sys @ ''_'' @ r) =
        Inr (if sys \<in> set [''UK'', ''UKIRT''] then ''UKIDSS'' else sys,
             if sys = ''LSST'' then sys @ ''_'' @ r else r)"
    using get_band_prefix_clean by blast
next
  fix r
  assume "r \<noteq> [] \<and> list_all (\<lambda>c. is_alpha c \<or> c = CHR ''_'' \<or> is_digit c) r"
  then show "get_band (''HST_WFPC2_'' @ r) = Inr (''HST_WFPC2'', ''WFPC2_'' @ r)"
    using get_band_hst_clean by blast
next
  fix b
  show "(\<exists>phot band. get_band b = Inr (phot, band) \<and> phot \<in> set phot_systems) \<or>
        get_band b = Inl (ValueError (''Dartmouth Models cannot resolve band '' @ b @ ''!''))"
    by (rule get_band_total)
qed

lemma no_underscore_forms:
  assumes "CHR ''_'' \<notin> set b"
  shows "\<not> (\<exists>sys c t. b = sys @ ''_'' @ c # t \<and> sys \<in> set prefix_systems \<and>
              (is_alpha c \<or> c = CHR ''_'')) \<and>
       \<not> (\<exists>c t. b = ''HST_WFPC2_'' @ c # t \<and> (is_alpha c \<or> c = CHR ''_'' \<or> is_digit c))"
  using assms by auto

theorem get_band_resolves_witness:
  "''g'' \<in> set band_aliases \<and> (\<exists>p. get_band ''g'' = Inr p \<and> canonical p) \<and>
   ''xyz'' \<notin> set band_aliases \<and>
   get_band ''xyz'' = Inl (ValueError ''Dartmouth Models cannot resolve band xyz!'') \<and>
   ''UKIDSS'' \<in> set prefix_systems \<and> ''K'' \<noteq> [] \<and>
   list_all (\<lambda>c. is_alpha c \<or> c = CHR ''_'') ''K'' \<and>
   get_band ''UKIDSS_K'' = Inr (''UKIDSS'', ''K'') \<and>
   ''F555W'' \<noteq> [] \<and> list_all (\<lambda>c. is_alpha c \<or> c = CHR ''_'' \<or> is_digit c) ''F555W'' \<and>
   get_band ''HST_WFPC2_F555W'' = Inr (''HST_WFPC2'', ''WFPC2_F555W'')"
proof -
  note t = get_band_resolves
  have g: "''g'' \<in> set band_aliases" by (simp add: band_aliases_def)
  have x: "''xyz'' \<notin> set band_aliases" by (simp add: band_aliases_def)
  have u: "''UKIDSS'' \<in> set prefix_systems \<and> ''K'' \<noteq> [] \<and>
     list_all (\<lambda>c. is_alpha c \<or> c = CHR ''_'') ''K''"
    by (simp add: prefix_systems_def is_alpha_def)
  have h: "''F555W'' \<noteq> [] \<and> list_all (\<lambda>c. is_alpha c \<or> c = CHR ''_'' \<or> is_digit c) ''F555W''"
    by (simp add: is_alpha_def is_digit_def)
  from t g have 1: "\<exists>p. get_band ''g'' = Inr p \<and> canonical p" by blast
  have "CHR ''_'' \<notin> set ''xyz''" by simp
  from t x no_underscore_forms [OF this]
  have 2: "get_band ''xyz'' = Inl (ValueError (''Dartmouth Models cannot resolve band '' @ ''xyz'' @ ''!''))"
    by blast
  from t u have "get_band (''UKIDSS'' @ ''_'' @ ''K'') =
      Inr (if ''UKIDSS'' \<in> set [''UK'', ''UKIRT''] then ''UKIDSS'' else ''UKIDSS'',
           if ''UKIDSS'' = ''LSST'' then ''UKIDSS'' @ ''_'' @ ''K'' else ''K'')"
    by blast
  then have 3: "get_band ''UKIDSS_K'' = Inr (''UKIDSS'', ''K'')" by simp
  from t h have "get_band (''HST_WFPC2_'' @ ''F555W'') = Inr (''HST_WFPC2'', ''WFPC2_'' @ ''F555W'')"
    by blast
  then have 4: "get_band ''HST_WFPC2_F555W'' = Inr (''HST_WFPC2'', ''WFPC2_F555W'')" by simp
  from 2 have e2: "get_band ''xyz'' = Inl (ValueError ''Dartmouth Models cannot resolve band xyz!'')"
    by simp
  from g 1 x e2 u 3 h 4 show ?thesis by blast
qed

text \<open>
  C1 as stated fails: \<open>UK_zzz\<close> and \<open>SDSSugriz_g\<close> name no canonical band, and
  \<open>get_band\<close> returns a pair for them.
\<close>

theorem get_band_noncanonical_counterexample:
  "get_band ''UK_zzz'' = Inr (''UKIDSS'', ''zzz'') \<and> \<not> canonical (''UKIDSS'', ''zzz'') \<and>
   get_band ''SDSSugriz_g'' = Inr (''SDSSugriz'', ''g'') \<and> \<not> canonical (''SDSSugriz'', ''g'')"
proof (intro conjI)
  show "get_band ''UK_zzz'' = Inr (''UKIDSS'', ''zzz'')"
    by (simp add: get_band_def get_band_phot_def get_band_else_def band_m_def band_m2_def
        is_alpha_def lit_def first_match_def phot_systems_def)
  show "get_band ''SDSSugriz_g'' = Inr (''SDSSugriz'', ''g'')"
    by (simp add: get_band_def get_band_phot_def get_band_else_def band_m_def band_m2_def
        is_alpha_def lit_def first_match_def phot_systems_def)
  show "\<not> canonical (''UKIDSS'', ''zzz'')" by (simp add: canonical_def phot_bands_def)
  show "\<not> canonical (''SDSSugriz'', ''g'')" by (simp add: canonical_def phot_bands_def)
qed

subsection \<open>get_feh\<close>

lemma plus_splits_iff:
  "(g, r) \<in> set (plus_splits P s) \<longleftrightarrow> g \<noteq> [] \<and> list_all P g \<and> s = g @ r"
proof (induction s arbitrary: g r)
  case Nil
  then show ?case by auto
next
  case (Cons c cs)
  show ?case
  proof (cases "P c")
    case False
    then show ?thesis by (cases g) auto
  next
    case True
    show ?thesis
    proof (cases g)
      case Nil
      with True show ?thesis by auto
    next
      case (Cons a g')
      with True Cons.IH [of g' r] show ?thesis by (cases g') auto
    qed
  qed
qed

lemma tails_self: "s \<in> set (tails s)"
  by (cases s) simp_all

lemma tails_iff: "s \<in> set (tails f) \<longleftrightarrow> (\<exists>pre. f = pre @ s)"
proof (induction f)
  case Nil
  then show ?case by auto
next
  case (Cons c cs)
  show ?case
  proof
    assume "s \<in> set (tails (c # cs))"
    then consider "s = c # cs" | "s \<in> set (tails cs)" by auto
    then show "\<exists>pre. c # cs = pre @ s"
    proof cases
      case 1
      then show ?thesis by simp
    next
      case 2
      with Cons.IH obtain pre where "cs = pre @ s" by blast
      then have "c # cs = (c # pre) @ s" by simp
      then show ?thesis by blast
    qed
  next
    assume "\<exists>pre. c # cs = pre @ s"
    then obtain pre where p: "c # cs = pre @ s" by blast
    show "s \<in> set (tails (c # cs))"
    proof (cases pre)
      case Nil
      with p show ?thesis by (simp del: tails.simps add: tails_self)
    next
      case (Cons a pre')
      with p have "cs = pre' @ s" by simp
      with Cons.IH show ?thesis by auto
    qed
  qed
qed

lemma lit_iff: "r \<in> set (lit l s) \<longleftrightarrow> s = l @ r"
  by (auto simp: lit_def split: if_splits) (metis append_take_drop_id)

lemma first_match_Some: "first_match ms = Some m \<Longrightarrow> m \<in> set ms"
  by (cases ms) (simp_all add: first_match_def)

lemma is_digit_not_dot: "is_digit c \<Longrightarrow> c \<noteq> CHR ''.''"
  by (auto simp: is_digit_def)

lemma pyfloat_digits:
  assumes "list_all is_digit ds"
  shows "pyfloat ds = real (digits_val ds)"
proof -
  have nd: "\<forall>c\<in>set ds. c \<noteq> CHR ''.''"
    using assms is_digit_not_dot unfolding list_all_iff by blast
  have t: "takeWhile (\<lambda>c. c \<noteq> CHR ''.'') ds = ds"
    using nd by (simp only: takeWhile_eq_all_conv)
  have d: "dropWhile (\<lambda>c. c \<noteq> CHR ''.'') ds = []"
    using nd by (simp only: dropWhile_eq_Nil_conv)
  show ?thesis unfolding pyfloat_def Let_def t d by simp
qed

lemma in_concat_map: "x \<in> set (concat (map f xs)) \<longleftrightarrow> (\<exists>y\<in>set xs. x \<in> set (f y))"
  by auto

lemma feh_m_mem:
  "(g1, g2) \<in> set [(g1, g2). s \<leftarrow> tails filename, r0 \<leftarrow> lit ''feh'' s,
      g1 \<leftarrow> [''m'', ''p''], r1 \<leftarrow> lit g1 r0, (g2, r2) \<leftarrow> plus_splits is_digit r1,
      r3 \<leftarrow> lit ''afe'' r2] \<longleftrightarrow>
   (\<exists>s\<in>set (tails filename). \<exists>r0\<in>set (lit ''feh'' s). \<exists>g\<in>set [''m'', ''p''].
      \<exists>r1\<in>set (lit g r0). \<exists>p\<in>set (plus_splits is_digit r1). \<exists>r3\<in>set (lit ''afe'' (snd p)).
         (g1, g2) = (g, fst p))"
  unfolding in_concat_map
  by (simp only: case_prod_beta list.set singleton_iff empty_iff insert_iff set_map image_iff)

lemma feh_m_sound:
  assumes "feh_m filename = Some (g1, g2)"
  shows "\<exists>pre post. (g1 = ''m'' \<or> g1 = ''p'') \<and> g2 \<noteq> [] \<and> list_all is_digit g2 \<and>
           filename = pre @ ''feh'' @ g1 @ g2 @ ''afe'' @ post"
proof -
  from assms have "(g1, g2) \<in> set [(g1, g2). s \<leftarrow> tails filename, r0 \<leftarrow> lit ''feh'' s,
      g1 \<leftarrow> [''m'', ''p''], r1 \<leftarrow> lit g1 r0, (g2, r2) \<leftarrow> plus_splits is_digit r1,
      r3 \<leftarrow> lit ''afe'' r2]"
    unfolding feh_m_def by (rule first_match_Some)
  then obtain s r0 r1 p r3 where
    s: "s \<in> set (tails filename)" and r0: "r0 \<in> set (lit ''feh'' s)" and
    g1: "g1 \<in> set [''m'', ''p'']" and r1: "r1 \<in> set (lit g1 r0)" and
    p: "p \<in> set (plus_splits is_digit r1)" and r3: "r3 \<in> set (lit ''afe'' (snd p))" and
    g2: "g2 = fst p"
    unfolding feh_m_mem by blast
  from p g2 have g2': "(g2, snd p) \<in> set (plus_splits is_digit r1)" by simp
  from s obtain pre where "filename = pre @ s" unfolding tails_iff by blast
  moreover from r0 have "s = ''feh'' @ r0" unfolding lit_iff .
  moreover from r1 have "r0 = g1 @ r1" unfolding lit_iff .
  moreover from g2' have "g2 \<noteq> []" "list_all is_digit g2" "r1 = g2 @ snd p"
    unfolding plus_splits_iff by simp_all
  moreover from r3 have "snd p = ''afe'' @ r3" unfolding lit_iff .
  ultimately have "filename = pre @ ''feh'' @ g1 @ g2 @ ''afe'' @ r3"
    by simp
  moreover from g1 have "g1 = ''m'' \<or> g1 = ''p''" by simp
  ultimately show ?thesis using \<open>g2 \<noteq> []\<close> \<open>list_all is_digit g2\<close> by blast
qed

lemma feh_m_complete:
  assumes "filename = pre @ ''feh'' @ g1 @ g2 @ ''afe'' @ post"
    and "g1 = ''m'' \<or> g1 = ''p''" and "g2 \<noteq> []" and "list_all is_digit g2"
  shows "feh_m filename \<noteq> None"
proof -
  let ?s = "''feh'' @ g1 @ g2 @ ''afe'' @ post"
  have s: "?s \<in> set (tails filename)" unfolding tails_iff using assms(1) by blast
  have r0: "g1 @ g2 @ ''afe'' @ post \<in> set (lit ''feh'' ?s)" unfolding lit_iff by simp
  have r1: "g2 @ ''afe'' @ post \<in> set (lit g1 (g1 @ g2 @ ''afe'' @ post))"
    unfolding lit_iff by simp
  have p: "(g2, ''afe'' @ post) \<in> set (plus_splits is_digit (g2 @ ''afe'' @ post))"
    unfolding plus_splits_iff using assms(3,4) by simp
  have r3: "post \<in> set (lit ''afe'' (snd (g2, ''afe'' @ post)))" unfolding lit_iff by simp
  have g1: "g1 \<in> set [''m'', ''p'']" using assms(2) by auto
  have "(g1, g2) = (g1, fst (g2, ''afe'' @ post))" by simp
  with s r0 g1 r1 p r3
  have "(g1, g2) \<in> set [(g1, g2). s \<leftarrow> tails filename, r0 \<leftarrow> lit ''feh'' s,
      g1 \<leftarrow> [''m'', ''p''], r1 \<leftarrow> lit g1 r0, (g2, r2) \<leftarrow> plus_splits is_digit r1,
      r3 \<leftarrow> lit ''afe'' r2]"
    unfolding feh_m_mem by blast
  then show ?thesis
    unfolding feh_m_def first_match_None by (metis empty_iff empty_set)
qed

text \<open>
  C4 (amended). \<open>get_feh\<close> searches the file name for \<open>feh\<close>, a sign letter
  \<open>m\<close> or \<open>p\<close>, one or more digits (not exactly two) and the literal \<open>afe\<close>.
  It returns \<open>None\<close> exactly when no such occurrence exists; otherwise it returns the
  digits of an occurrence read as a number, divided by 10, positive for \<open>p\<close> and negative
  for \<open>m\<close>.
\<close>

theorem get_feh_pattern:
  "(get_feh filename = None \<longleftrightarrow>
      \<not> (\<exists>pre s ds post. filename = pre @ ''feh'' @ s @ ds @ ''afe'' @ post \<and>
            (s = ''m'' \<or> s = ''p'') \<and> ds \<noteq> [] \<and> list_all is_digit ds)) \<and>
   (\<forall>v. get_feh filename = Some v \<longrightarrow>
      (\<exists>pre s ds post. filename = pre @ ''feh'' @ s @ ds @ ''afe'' @ post \<and>
            (s = ''m'' \<or> s = ''p'') \<and> ds \<noteq> [] \<and> list_all is_digit ds \<and>
            v = real (digits_val ds) / 10 * (if s = ''p'' then 1 else - 1)))"
proof (intro conjI allI impI)
  show "get_feh filename = None \<longleftrightarrow>
      \<not> (\<exists>pre s ds post. filename = pre @ ''feh'' @ s @ ds @ ''afe'' @ post \<and>
            (s = ''m'' \<or> s = ''p'') \<and> ds \<noteq> [] \<and> list_all is_digit ds)"
  proof
    assume n: "get_feh filename = None"
    then have "feh_m filename = None"
      by (simp add: get_feh_def Let_def split: option.splits prod.splits)
    then show "\<not> (\<exists>pre s ds post. filename = pre @ ''feh'' @ s @ ds @ ''afe'' @ post \<and>
            (s = ''m'' \<or> s = ''p'') \<and> ds \<noteq> [] \<and> list_all is_digit ds)"
      using feh_m_complete by blast
  next
    assume a: "\<not> (\<exists>pre s ds post. filename = pre @ ''feh'' @ s @ ds @ ''afe'' @ post \<and>
            (s = ''m'' \<or> s = ''p'') \<and> ds \<noteq> [] \<and> list_all is_digit ds)"
    have "feh_m filename = None"
    proof (cases "feh_m filename")
      case None
      then show ?thesis .
    next
      case (Some m)
      obtain g1 g2 where "m = (g1, g2)" by (cases m)
      with Some feh_m_sound [of filename g1 g2] a show ?thesis by blast
    qed
    then show "get_feh filename = None" by (simp add: get_feh_def)
  qed
next
  fix v
  assume v: "get_feh filename = Some v"
  then obtain g1 g2 where m: "feh_m filename = Some (g1, g2)"
    and v': "v = pyfloat g2 / 10 * (if g1 = ''p'' then 1 else - 1)"
    by (auto simp: get_feh_def Let_def split: option.splits prod.splits)
  from feh_m_sound [OF m] obtain pre post where
    f: "filename = pre @ ''feh'' @ g1 @ g2 @ ''afe'' @ post" and
    g: "g1 = ''m'' \<or> g1 = ''p''" "g2 \<noteq> []" "list_all is_digit g2"
    by blast
  from g(3) v' have "v = real (digits_val g2) / 10 * (if g1 = ''p'' then 1 else - 1)"
    by (simp only: pyfloat_digits)
  with f g show "\<exists>pre s ds post. filename = pre @ ''feh'' @ s @ ds @ ''afe'' @ post \<and>
            (s = ''m'' \<or> s = ''p'') \<and> ds \<noteq> [] \<and> list_all is_digit ds \<and>
            v = real (digits_val ds) / 10 * (if s = ''p'' then 1 else - 1)"
    by blast
qed

theorem get_feh_pattern_witness:
  "get_feh ''fehm05afep0.UBVRIJHKsKp'' = Some (- (1 / 2)) \<and>
   (\<exists>pre s ds post. ''fehm05afep0.UBVRIJHKsKp'' = pre @ ''feh'' @ s @ ds @ ''afe'' @ post \<and>
        (s = ''m'' \<or> s = ''p'') \<and> ds \<noteq> [] \<and> list_all is_digit ds \<and>
        - (1 / 2) = real (digits_val ds) / 10 * (if s = ''p'' then 1 else - 1))"
proof -
  have e: "get_feh ''fehm05afep0.UBVRIJHKsKp'' = Some (- (1 / 2))"
    by (simp add: get_feh_def feh_m_def lit_def first_match_def is_digit_def pyfloat_def
        digits_val_def digit_val_def)
  with get_feh_pattern [of "''fehm05afep0.UBVRIJHKsKp''"] show ?thesis by blast
qed

text \<open>
  C4 as stated fails: a name with \<open>feh\<close>, a sign letter and two digits but no \<open>afe\<close>
  after them gives \<open>None\<close>, and a three-digit magnitude is used whole.
\<close>

theorem get_feh_two_digit_counterexample:
  "spec_get_feh ''fehp05.UBVRIJHKsKp'' = Some (1 / 2) \<and> get_feh ''fehp05.UBVRIJHKsKp'' = None \<and>
   spec_get_feh ''fehm123afep0'' = Some (- (6 / 5)) \<and> get_feh ''fehm123afep0'' = Some (- (123 / 10))"
  by (simp add: spec_get_feh_def spec_feh_m_def get_feh_def feh_m_def lit_def first_match_def
      is_digit_def pyfloat_def digits_val_def digit_val_def)

subsection \<open>to_df\<close>



















lemma age_loop_overflow:
  "i \<le> length ages \<Longrightarrow> length ages < i + length (filter is_data ls) \<Longrightarrow>
     age_loop ls (ages, cur, i) = Inl IndexError"
proof (induction ls arbitrary: ages cur i)
  case Nil
  then show ?case by simp
next
  case (Cons l ls)
  show ?case
  proof (cases "is_data l")
    case True
    show ?thesis
    proof (cases "i < length ages")
      case lt: True
      with True Cons.prems have "i + 1 \<le> length (ages[i := cur])"
        "length (ages[i := cur]) < (i + 1) + length (filter is_data ls)" by simp_all
      from Cons.IH [OF this] True lt show ?thesis by (simp add: is_data_def)
    next
      case False
      with True show ?thesis by (simp add: is_data_def)
    qed
  next
    case False
    with Cons.prems have "length ages < i + length (filter is_data ls)" by simp
    from Cons.IH [OF Cons.prems(1) this] False show ?thesis
      by (cases "age_m l") (auto simp: is_data_def)
  qed
qed



















subsection \<open>hdf_filename\<close>

lemma path_join_relative:
  "take 1 b \<noteq> ''/'' \<Longrightarrow> path_join a b = (if a = [] \<or> last a = CHR ''/'' then a else a @ ''/'') @ b"
  by (simp add: path_join_def)

lemma datadir_not_slash: "datadir isochrones \<noteq> [] \<and> last (datadir isochrones) \<noteq> CHR ''/''"
  by (simp add: datadir_def path_join_def)

text \<open>
  C10. \<open>hdf_filename\<close> does not use \<open>y\<close>: with \<open>afe\<close> set in \<open>kwargs\<close>, whatever
  \<open>y\<close> is, the path is \<open>os.path.join\<close> of the data directory and the photometric system
  name followed by the \<open>afe\<close> suffix (empty for \<open>afep0\<close>, else an underscore and
  \<open>afe\<close>) and \<open>.h5\<close>, so any two values of \<open>y\<close> give the same path; for a system name
  that is not an absolute path this is the file of that name inside the data directory.
\<close>

theorem hdf_filename_ignores_y:
  "kwargs ''afe'' = Some afe \<longrightarrow>
     hdf_filename isochrones (kwargs(''y'' \<mapsto> y)) phot =
       Inr (path_join (datadir isochrones)
              (phot @ (if afe = ''afep0'' then '''' else ''_'' @ afe) @ ''.h5'')) \<and>
     hdf_filename isochrones (kwargs(''y'' \<mapsto> y)) phot =
       hdf_filename isochrones (kwargs(''y'' \<mapsto> y')) phot \<and>
     (take 1 phot \<noteq> ''/'' \<longrightarrow>
        hdf_filename isochrones (kwargs(''y'' \<mapsto> y)) phot =
          Inr (datadir isochrones @ ''/'' @ phot @
                 (if afe = ''afep0'' then '''' else ''_'' @ afe) @ ''.h5''))"
proof (intro impI conjI)
  assume a: "kwargs ''afe'' = Some afe"
  then have k: "\<And>v. (kwargs(''y'' \<mapsto> v)) ''afe'' = Some afe" by simp
  show 1: "hdf_filename isochrones (kwargs(''y'' \<mapsto> y)) phot =
       Inr (path_join (datadir isochrones)
              (phot @ (if afe = ''afep0'' then '''' else ''_'' @ afe) @ ''.h5''))"
    unfolding hdf_filename_def k by simp
  show "hdf_filename isochrones (kwargs(''y'' \<mapsto> y)) phot =
       hdf_filename isochrones (kwargs(''y'' \<mapsto> y')) phot"
    unfolding hdf_filename_def k by simp
  assume p: "take 1 phot \<noteq> ''/''"
  then have "take 1 (phot @ (if afe = ''afep0'' then '''' else ''_'' @ afe) @ ''.h5'') \<noteq> ''/''"
    by (cases phot) auto
  from path_join_relative [OF this] datadir_not_slash 1
  show "hdf_filename isochrones (kwargs(''y'' \<mapsto> y)) phot =
          Inr (datadir isochrones @ ''/'' @ phot @
                 (if afe = ''afep0'' then '''' else ''_'' @ afe) @ ''.h5'')"
    by simp
qed

theorem hdf_filename_ignores_y_witness:
  "[''afe'' \<mapsto> ''afep2''] ''afe'' = Some ''afep2'' \<and>
   take 1 ''SDSSugriz'' \<noteq> ''/'' \<and>
   hdf_filename ''/data'' [''afe'' \<mapsto> ''afep2'', ''y'' \<mapsto> ''y33''] ''SDSSugriz'' =
     Inr ''/data/dartmouth/SDSSugriz_afep2.h5'' \<and>
   hdf_filename ''/data'' [''afe'' \<mapsto> ''afep2'', ''y'' \<mapsto> ''y33''] ''SDSSugriz'' =
     hdf_filename ''/data'' [''afe'' \<mapsto> ''afep2'', ''y'' \<mapsto> ''y40''] ''SDSSugriz''"
proof -
  have a: "[''afe'' \<mapsto> ''afep2''] ''afe'' = Some ''afep2''" by simp
  have b: "take 1 ''SDSSugriz'' \<noteq> ''/''" by simp
  have e: "datadir ''/data'' @ ''/'' @ ''SDSSugriz'' @
      (if ''afep2'' = ''afep0'' then '''' else ''_'' @ ''afep2'') @ ''.h5'' =
      ''/data/dartmouth/SDSSugriz_afep2.h5''"
    by (simp add: datadir_def path_join_def)
  from a b hdf_filename_ignores_y [of "[''afe'' \<mapsto> ''afep2'']" "''afep2''" "''/data''"
      "''y33''" "''SDSSugriz''" "''y40''"]
  show ?thesis unfolding e by blast
qed

subsection \<open>tri_filename and write_tri\<close>

lemma path_join_inject:
  "take 1 b \<noteq> ''/'' \<Longrightarrow> take 1 b' \<noteq> ''/'' \<Longrightarrow> path_join a b = path_join a b' \<longleftrightarrow> b = b'"
  by (simp add: path_join_def)

lemma underscore_split:
  "CHR ''_'' \<notin> set a \<Longrightarrow> CHR ''_'' \<notin> set a' \<Longrightarrow>
     a @ CHR ''_'' # b = a' @ CHR ''_'' # b' \<Longrightarrow> a = a' \<and> b = b'"
proof (induction a arbitrary: a')
  case Nil
  then show ?case by (cases a') auto
next
  case (Cons c a)
  then show ?case by (cases a') auto
qed

lemma tri_filename_eq:
  "tri_filename isochrones afe y = tri_filename isochrones afe' y' \<longleftrightarrow>
     (if afe = ''afep0'' then '''' else ''_'' @ afe) @ (if y = '''' then '''' else ''_'' @ y) =
     (if afe' = ''afep0'' then '''' else ''_'' @ afe') @ (if y' = '''' then '''' else ''_'' @ y')"
  unfolding tri_filename_def Let_def
  by (subst path_join_inject) simp_all

lemma no_underscore_append:
  "CHR ''_'' \<notin> set a \<Longrightarrow> a \<noteq> b @ CHR ''_'' # c"
  by auto

lemma tri_filename_inject:
  assumes u: "CHR ''_'' \<notin> set afe" "CHR ''_'' \<notin> set y" "CHR ''_'' \<notin> set afe'" "CHR ''_'' \<notin> set y'"
    and x: "y \<noteq> afe'" "y' \<noteq> afe"
    and e: "tri_filename isochrones afe y = tri_filename isochrones afe' y'"
  shows "afe = afe' \<and> y = y'"
proof -
  note s = e [unfolded tri_filename_eq]
  show ?thesis
  proof (cases "afe = ''afep0''")
    case a: True
    show ?thesis
    proof (cases "afe' = ''afep0''")
      case True
      from s a True have "(if y = '''' then '''' else ''_'' @ y) = (if y' = '''' then '''' else ''_'' @ y')"
        by simp
      then have "y = y'" by (cases "y = ''''"; cases "y' = ''''") simp_all
      with a True show ?thesis by simp
    next
      case False
      from s a False have 1: "(if y = '''' then '''' else ''_'' @ y) = ''_'' @ afe' @ (if y' = '''' then '''' else ''_'' @ y')"
        by simp
      show ?thesis
      proof (cases "y = ''''")
        case True
        with 1 show ?thesis by simp
      next
        case ny: False
        show ?thesis
        proof (cases "y' = ''''")
          case True
          with 1 ny x(1) show ?thesis by simp
        next
          case False
          with 1 ny have "y = afe' @ CHR ''_'' # y'" by simp
          with no_underscore_append [OF u(2)] show ?thesis by blast
        qed
      qed
    qed
  next
    case a: False
    show ?thesis
    proof (cases "afe' = ''afep0''")
      case True
      from s a True have 1: "''_'' @ afe @ (if y = '''' then '''' else ''_'' @ y) = (if y' = '''' then '''' else ''_'' @ y')"
        by simp
      show ?thesis
      proof (cases "y' = ''''")
        case True
        with 1 show ?thesis by simp
      next
        case ny: False
        show ?thesis
        proof (cases "y = ''''")
          case True
          with 1 ny x(2) show ?thesis by simp
        next
          case False
          with 1 ny have "y' = afe @ CHR ''_'' # y" by simp
          with no_underscore_append [OF u(4)] show ?thesis by blast
        qed
      qed
    next
      case False
      from s a False have 1: "afe @ (if y = '''' then '''' else ''_'' @ y) = afe' @ (if y' = '''' then '''' else ''_'' @ y')"
        by simp
      show ?thesis
      proof (cases "y = ''''")
        case ey: True
        show ?thesis
        proof (cases "y' = ''''")
          case True
          with 1 ey show ?thesis by simp
        next
          case False
          with 1 ey have "afe = afe' @ CHR ''_'' # y'" by simp
          with no_underscore_append [OF u(1)] show ?thesis by blast
        qed
      next
        case ny: False
        show ?thesis
        proof (cases "y' = ''''")
          case True
          with 1 ny have "afe' = afe @ CHR ''_'' # y" by simp
          with no_underscore_append [OF u(3)] show ?thesis by blast
        next
          case False
          with 1 ny have "afe @ CHR ''_'' # y = afe' @ CHR ''_'' # y'" by simp
          from underscore_split [OF u(1) u(3) this] show ?thesis .
        qed
      qed
    qed
  qed
qed

lemma write_tri_None_path:
  assumes "write_tri isochrones delaunay df None afe y bands fs = (out, Inr fs')"
  shows "\<exists>t. fs' = fs(tri_filename isochrones afe y \<mapsto> t)"
  using assms unfolding write_tri_def Let_def
  by (auto split: list.splits sum.splits)

text \<open>
  C6 (amended). The cache file of the triangulation is keyed by \<open>afe\<close> and \<open>y\<close>
  only: whatever the bands and the grid (so whatever the photometric system), a run of
  \<open>write_tri\<close> without an explicit file name writes \<open>tri_filename(afe, y)\<close>. Two
  different pairs \<open>(afe, y)\<close> whose values contain no underscore, and where no \<open>y\<close>
  value is used as \<open>afe\<close> value of the other pair, have different paths.
\<close>

theorem tri_filename_key:
  "(\<forall>df bands delaunay fs out fs'.
      write_tri isochrones delaunay (df :: grid_df) None afe y bands (fs :: string \<rightharpoonup> 'tri) = (out, Inr fs') \<longrightarrow>
      (\<exists>t. fs' = fs(tri_filename isochrones afe y \<mapsto> t))) \<and>
   (\<forall>afe' y'. CHR ''_'' \<notin> set afe \<union> set y \<union> set afe' \<union> set y' \<and> y \<noteq> afe' \<and> y' \<noteq> afe \<and>
      (afe, y) \<noteq> (afe', y') \<longrightarrow>
      tri_filename isochrones afe y \<noteq> tri_filename isochrones afe' y')"
proof (intro conjI allI impI)
  fix df :: grid_df and bands delaunay and fs :: "string \<rightharpoonup> 'tri" and out fs'
  assume "write_tri isochrones delaunay df None afe y bands fs = (out, Inr fs')"
  then show "\<exists>t. fs' = fs(tri_filename isochrones afe y \<mapsto> t)" by (rule write_tri_None_path)
next
  fix afe' y'
  assume h: "CHR ''_'' \<notin> set afe \<union> set y \<union> set afe' \<union> set y' \<and> y \<noteq> afe' \<and> y' \<noteq> afe \<and>
      (afe, y) \<noteq> (afe', y')"
  show "tri_filename isochrones afe y \<noteq> tri_filename isochrones afe' y'"
  proof
    assume "tri_filename isochrones afe y = tri_filename isochrones afe' y'"
    with h tri_filename_inject [of afe y afe' y' isochrones] show False by simp
  qed
qed

lemma write_tri_sdss:
  "write_tri ''/data'' Inr sdss_grid None ''afep0'' '''' [''g''] Map.empty =
     ([''Writing afe=afep0 y= to /data/dartmouth.tri''],
      Inr [''/data/dartmouth.tri'' \<mapsto> [(1 / 10, 9, 0), (3 / 25, 9, 0)]])"
  by (simp add: write_tri_def Let_def tri_filename_def path_join_def get_column_def interpnd_def
      sdss_grid_def)

theorem tri_filename_key_witness:
  "write_tri ''/data'' Inr sdss_grid None ''afep0'' '''' [''g''] Map.empty =
     ([''Writing afe=afep0 y= to /data/dartmouth.tri''],
      Inr [''/data/dartmouth.tri'' \<mapsto> [(1 / 10, 9, 0), (3 / 25, 9, 0)]]) \<and>
   (\<exists>t. [''/data/dartmouth.tri'' \<mapsto> [(1 / 10, 9, 0), (3 / 25, 9, 0)]] =
          Map.empty(tri_filename ''/data'' ''afep0'' '''' \<mapsto> (t :: point list))) \<and>
   CHR ''_'' \<notin> set ''afep0'' \<union> set '''' \<union> set ''afep2'' \<union> set ''y33'' \<and>
   '''' \<noteq> ''afep2'' \<and> ''y33'' \<noteq> ''afep0'' \<and> (''afep0'', '''') \<noteq> (''afep2'', ''y33'') \<and>
   tri_filename ''/data'' ''afep0'' '''' \<noteq> tri_filename ''/data'' ''afep2'' ''y33''"
proof -
  note k = tri_filename_key [where ?'tri = "point list", of "''/data''" "''afep0''" "''''"]
  have h: "CHR ''_'' \<notin> set ''afep0'' \<union> set '''' \<union> set ''afep2'' \<union> set ''y33'' \<and>
     '''' \<noteq> ''afep2'' \<and> ''y33'' \<noteq> ''afep0'' \<and> (''afep0'', '''') \<noteq> (''afep2'', ''y33'')"
    by simp
  from k write_tri_sdss
  have 1: "\<exists>t. [''/data/dartmouth.tri'' \<mapsto> [(1 / 10, 9, 0), (3 / 25, 9, 0)]] =
          Map.empty(tri_filename ''/data'' ''afep0'' '''' \<mapsto> (t :: point list))"
    by blast
  from k h have 2: "tri_filename ''/data'' ''afep0'' '''' \<noteq> tri_filename ''/data'' ''afep2'' ''y33''"
    by blast
  from write_tri_sdss 1 h 2 show ?thesis by blast
qed

text \<open>
  C6 as stated fails: the runs for band \<open>g\<close> (SDSSugriz) and band \<open>V\<close> (UBVRIJHKsKp)
  write the same file, and the pairs \<open>(afep0, y33)\<close> and \<open>(y33, '')\<close> share a path.
\<close>

theorem tri_filename_phot_counterexample:
  "get_band ''g'' = Inr (''SDSSugriz'', ''sdss_g'') \<and>
   get_band ''V'' = Inr (''UBVRIJHKsKp'', ''V'') \<and>
   write_tri ''/data'' Inr sdss_grid None ''afep0'' '''' [''g''] Map.empty =
     ([''Writing afe=afep0 y= to /data/dartmouth.tri''],
      Inr [''/data/dartmouth.tri'' \<mapsto> [(1 / 10, 9, 0), (3 / 25, 9, 0)]]) \<and>
   write_tri ''/data'' Inr ubv_grid None ''afep0'' '''' [''V''] Map.empty =
     ([''Writing afe=afep0 y= to /data/dartmouth.tri''],
      Inr [''/data/dartmouth.tri'' \<mapsto> [(1 / 10, 9, 0), (3 / 25, 9, 0)]]) \<and>
   tri_filename ''/data'' ''afep0'' ''y33'' = ''/data/dartmouth_y33.tri'' \<and>
   tri_filename ''/data'' ''y33'' '''' = ''/data/dartmouth_y33.tri''"
proof (intro conjI)
  show "get_band ''g'' = Inr (''SDSSugriz'', ''sdss_g'')"
    by (simp add: get_band_def get_band_phot_def)
  show "get_band ''V'' = Inr (''UBVRIJHKsKp'', ''V'')"
    by (simp add: get_band_def get_band_phot_def)
  show "write_tri ''/data'' Inr sdss_grid None ''afep0'' '''' [''g''] Map.empty =
     ([''Writing afe=afep0 y= to /data/dartmouth.tri''],
      Inr [''/data/dartmouth.tri'' \<mapsto> [(1 / 10, 9, 0), (3 / 25, 9, 0)]])"
    by (rule write_tri_sdss)
  show "write_tri ''/data'' Inr ubv_grid None ''afep0'' '''' [''V''] Map.empty =
     ([''Writing afe=afep0 y= to /data/dartmouth.tri''],
      Inr [''/data/dartmouth.tri'' \<mapsto> [(1 / 10, 9, 0), (3 / 25, 9, 0)]])"
    by (simp add: write_tri_def Let_def tri_filename_def path_join_def get_column_def interpnd_def
        ubv_grid_def)
  show "tri_filename ''/data'' ''afep0'' ''y33'' = ''/data/dartmouth_y33.tri''"
    by (simp add: tri_filename_def path_join_def)
  show "tri_filename ''/data'' ''y33'' '''' = ''/data/dartmouth_y33.tri''"
    by (simp add: tri_filename_def path_join_def)
qed

lemma get_column_columns:
  "columns df1 = columns df2 \<Longrightarrow>
     (\<exists>e. get_column df1 b = Inl e \<and> get_column df2 b = Inl e) \<or>
     (\<exists>m1 m2. get_column df1 b = Inr m1 \<and> get_column df2 b = Inr m2)"
  by (simp add: get_column_def split: option.splits)

lemma write_tri_Inr:
  assumes "write_tri isochrones delaunay df filename afe y bands fs = (out, Inr fs')"
  shows "\<exists>t. delaunay (map (\<lambda>r. (MMo r, age r, feh r)) (rows df)) = Inr t \<and>
           fs' = fs((case filename of None \<Rightarrow> tri_filename isochrones afe y | Some f \<Rightarrow> f) \<mapsto> t)"
  using assms unfolding write_tri_def Let_def interpnd_def
  by (auto split: list.splits sum.splits)

text \<open>
  C7. The object \<open>write_tri\<close> serializes is the triangulation of the points
  \<open>(MMo, age, feh)\<close> of the grid rows: two runs on grids with the same column names and
  the same coordinate columns behave identically, whatever the magnitudes are, and a
  run that succeeds stores the Delaunay triangulation of those points at the path.
\<close>

theorem write_tri_coordinates_only:
  "(columns df1 = columns df2 \<and>
    map (\<lambda>r. (MMo r, age r, feh r)) (rows df1) = map (\<lambda>r. (MMo r, age r, feh r)) (rows df2) \<longrightarrow>
      write_tri isochrones delaunay df1 filename afe y bands fs =
      write_tri isochrones delaunay df2 filename afe y bands fs) \<and>
   (\<forall>out fs'. write_tri isochrones delaunay df1 filename afe y bands fs = (out, Inr fs') \<longrightarrow>
      (\<exists>t. delaunay (map (\<lambda>r. (MMo r, age r, feh r)) (rows df1)) = Inr t \<and>
           fs' = fs((case filename of None \<Rightarrow> tri_filename isochrones afe y | Some f \<Rightarrow> f) \<mapsto> t)))"
proof (intro conjI allI impI)
  assume a: "columns df1 = columns df2 \<and>
    map (\<lambda>r. (MMo r, age r, feh r)) (rows df1) = map (\<lambda>r. (MMo r, age r, feh r)) (rows df2)"
  show "write_tri isochrones delaunay df1 filename afe y bands fs =
      write_tri isochrones delaunay df2 filename afe y bands fs"
  proof (cases bands)
    case Nil
    then show ?thesis by (simp add: write_tri_def)
  next
    case (Cons b bs)
    from a get_column_columns [of df1 df2 b]
    consider e where "get_column df1 b = Inl e" "get_column df2 b = Inl e"
      | m1 m2 where "get_column df1 b = Inr m1" "get_column df2 b = Inr m2"
      by blast
    then show ?thesis
    proof cases
      case 1
      with Cons show ?thesis by (simp add: write_tri_def)
    next
      case 2
      with Cons a show ?thesis
        by (simp add: write_tri_def interpnd_def split: sum.splits)
    qed
  qed
next
  fix out fs'
  assume "write_tri isochrones delaunay df1 filename afe y bands fs = (out, Inr fs')"
  then show "\<exists>t. delaunay (map (\<lambda>r. (MMo r, age r, feh r)) (rows df1)) = Inr t \<and>
           fs' = fs((case filename of None \<Rightarrow> tri_filename isochrones afe y | Some f \<Rightarrow> f) \<mapsto> t)"
    by (rule write_tri_Inr)
qed

theorem write_tri_coordinates_only_witness:
  "columns sdss_grid = columns (sdss_grid\<lparr>rows := map (\<lambda>r. r\<lparr>vals := [0]\<rparr>) (rows sdss_grid)\<rparr>) \<and>
   map (\<lambda>r. (MMo r, age r, feh r)) (rows sdss_grid) =
     map (\<lambda>r. (MMo r, age r, feh r))
       (rows (sdss_grid\<lparr>rows := map (\<lambda>r. r\<lparr>vals := [0]\<rparr>) (rows sdss_grid)\<rparr>)) \<and>
   map vals (rows sdss_grid) \<noteq>
     map vals (rows (sdss_grid\<lparr>rows := map (\<lambda>r. r\<lparr>vals := [0]\<rparr>) (rows sdss_grid)\<rparr>)) \<and>
   write_tri ''/data'' Inr sdss_grid None ''afep0'' '''' [''g''] Map.empty =
     ([''Writing afe=afep0 y= to /data/dartmouth.tri''],
      Inr [''/data/dartmouth.tri'' \<mapsto> [(1 / 10, 9, 0), (3 / 25, 9, 0)]]) \<and>
   write_tri ''/data'' Inr (sdss_grid\<lparr>rows := map (\<lambda>r. r\<lparr>vals := [0]\<rparr>) (rows sdss_grid)\<rparr>)
       None ''afep0'' '''' [''g''] Map.empty =
     ([''Writing afe=afep0 y= to /data/dartmouth.tri''],
      Inr [''/data/dartmouth.tri'' \<mapsto> [(1 / 10, 9, 0), (3 / 25, 9, 0)]])"
proof -
  let ?g = "sdss_grid\<lparr>rows := map (\<lambda>r. r\<lparr>vals := [0]\<rparr>) (rows sdss_grid)\<rparr>"
  have c: "columns sdss_grid = columns ?g" by simp
  have p: "map (\<lambda>r. (MMo r, age r, feh r)) (rows sdss_grid) =
     map (\<lambda>r. (MMo r, age r, feh r)) (rows ?g)" by simp
  have v: "map vals (rows sdss_grid) \<noteq> map vals (rows ?g)"
    by (simp add: sdss_grid_def)
  from c p write_tri_coordinates_only [of sdss_grid ?g "''/data''" Inr None "''afep0''" "''''"
      "[''g'']" Map.empty]
  have "write_tri ''/data'' Inr sdss_grid None ''afep0'' '''' [''g''] Map.empty =
        write_tri ''/data'' Inr ?g None ''afep0'' '''' [''g''] Map.empty"
    by blast
  with write_tri_sdss c p v show ?thesis by simp
qed

subsection \<open>df_all\<close>

lemma log10_gyr: "log 10 1000000000 = 9"
proof -
  have "(1000000000::real) = 10 ^ 9" by simp
  then have "log 10 1000000000 = log 10 ((10::real) ^ 9)" by simp
  also have "\<dots> = real 9" by (rule log_pow_cancel) simp_all
  finally show ?thesis by simp
qed

lemma rename_columns_total: "[] \<notin> set cols \<Longrightarrow> \<exists>cols'. rename_columns cols = Inr cols'"
proof (induction cols)
  case Nil
  then show ?case by simp
next
  case (Cons c cols)
  then obtain cols' where "rename_columns cols = Inr cols'" by auto
  with Cons.prems show ?case by (cases c) auto
qed

lemma df_all_rows:
  "df_all phot df = Inr out \<Longrightarrow>
     rows out = sort_values (map (\<lambda>r. r\<lparr>age := log 10 (age r * 1000000000)\<rparr>) (rows df)) \<and>
     index out = map (\<lambda>r. (feh r, age r)) (rows out)"
  unfolding df_all_def Let_def
  by (auto split: if_splits sum.splits)

lemma df_all_total:
  "phot \<noteq> ''HST_WFPC2'' \<or> [] \<notin> set (columns df) \<Longrightarrow> \<exists>out. df_all phot df = Inr out"
proof (cases "phot = ''HST_WFPC2''")
  case True
  assume "phot \<noteq> ''HST_WFPC2'' \<or> [] \<notin> set (columns df)"
  with True have "[] \<notin> set (columns df)" by simp
  from rename_columns_total [OF this] obtain cols' where "rename_columns (columns df) = Inr cols'" ..
  with True show ?thesis by (simp add: df_all_def Let_def)
next
  case False
  then show ?thesis by (simp add: df_all_def Let_def)
qed

lemma df_all_gyr_grid:
  "df_all ''SDSSugriz'' gyr_grid =
     Inr \<lparr>columns = [''g''],
          rows = [\<lparr>EEP = 2, MMo = 1 / 10, age = 9, feh = 0, vals = [25 / 2]\<rparr>,
                  \<lparr>EEP = 3, MMo = 3 / 25, age = 9, feh = 0, vals = [121 / 10]\<rparr>],
          index = [(0, 9), (0, 9)]\<rparr>"
  by (simp add: df_all_def Let_def gyr_grid_def sort_values_def log10_gyr less_eq_prod_def)

lemma df_all_mset:
  assumes "df_all phot df = Inr out"
  shows "mset (rows out) = mset (map (\<lambda>r. r\<lparr>age := log 10 (age r * 1000000000)\<rparr>) (rows df))"
proof -
  from df_all_rows [OF assms]
  have "rows out = sort_key (\<lambda>r. (feh r, age r, MMo r, EEP r))
          (map (\<lambda>r. r\<lparr>age := log 10 (age r * 1000000000)\<rparr>) (rows df))"
    unfolding sort_values_def by blast
  then show ?thesis by (simp only: mset_sort)
qed

lemma df_all_set:
  assumes "df_all phot df = Inr out"
  shows "set (rows out) = (\<lambda>r. r\<lparr>age := log 10 (age r * 1000000000)\<rparr>) ` set (rows df)"
proof -
  from df_all_mset [OF assms]
  have "set_mset (mset (rows out)) =
        set_mset (mset (map (\<lambda>r. r\<lparr>age := log 10 (age r * 1000000000)\<rparr>) (rows df)))"
    by (rule arg_cong)
  then show ?thesis by (simp only: set_mset_mset set_map)
qed

lemma gyr_row: "age r = 1 \<Longrightarrow> r\<lparr>age := log 10 (age r * 1000000000)\<rparr> = r\<lparr>age := 9\<rparr>"
  by (simp add: log10_gyr)

lemma log_age_row:
  "0 < age r \<Longrightarrow> r' = r\<lparr>age := log 10 (age r * 1000000000)\<rparr> \<Longrightarrow>
     10 powr age r' = age r * 1000000000 \<and> r' = r\<lparr>age := age r'\<rparr>"
  by simp

text \<open>
  C3. The rows of the table \<open>df_all\<close> returns are the rows of the input with \<open>age\<close>
  replaced by \<open>log10(age * 1e9)\<close>, the decimal logarithm of the age in years, and
  nothing else changed (up to their order): a row with age 1 (Gyr) appears with age
  exactly 9, and for a positive age the stored value \<open>a\<close> satisfies
  \<open>10 ^ a = age * 1e9\<close>. \<open>df_all\<close> returns a table whenever the photometric system is
  not HST_WFPC2 or no column name is empty.
\<close>

theorem df_all_log_age:
  "(\<forall>out. df_all phot df = Inr out \<longrightarrow>
      mset (rows out) = mset (map (\<lambda>r. r\<lparr>age := log 10 (age r * 1000000000)\<rparr>) (rows df)) \<and>
      (\<forall>r\<in>set (rows df). age r = 1 \<longrightarrow> r\<lparr>age := 9\<rparr> \<in> set (rows out)) \<and>
      (\<forall>r\<in>set (rows df). 0 < age r \<longrightarrow>
         (\<exists>r'\<in>set (rows out). 10 powr age r' = age r * 1000000000 \<and> r' = r\<lparr>age := age r'\<rparr>))) \<and>
   (phot \<noteq> ''HST_WFPC2'' \<or> [] \<notin> set (columns df) \<longrightarrow> (\<exists>out. df_all phot df = Inr out))"
proof (intro conjI allI impI ballI)
  fix out
  assume o: "df_all phot df = Inr out"
  show "mset (rows out) = mset (map (\<lambda>r. r\<lparr>age := log 10 (age r * 1000000000)\<rparr>) (rows df))"
    using o by (rule df_all_mset)
next
  fix out r
  assume o: "df_all phot df = Inr out" and r: "r \<in> set (rows df)" "age r = 1"
  from r(1) have "r\<lparr>age := log 10 (age r * 1000000000)\<rparr> \<in> set (rows out)"
    unfolding df_all_set [OF o] by (rule imageI)
  then show "r\<lparr>age := 9\<rparr> \<in> set (rows out)" unfolding gyr_row [OF r(2)] .
next
  fix out r
  assume o: "df_all phot df = Inr out" and r: "r \<in> set (rows df)" "0 < age r"
  from r(1) have 1: "r\<lparr>age := log 10 (age r * 1000000000)\<rparr> \<in> set (rows out)"
    unfolding df_all_set [OF o] by (rule imageI)
  from log_age_row [OF r(2) refl] 1
  show "\<exists>r'\<in>set (rows out). 10 powr age r' = age r * 1000000000 \<and> r' = r\<lparr>age := age r'\<rparr>"
    by blast
next
  assume "phot \<noteq> ''HST_WFPC2'' \<or> [] \<notin> set (columns df)"
  then show "\<exists>out. df_all phot df = Inr out" by (rule df_all_total)
qed

theorem df_all_log_age_witness:
  "df_all ''SDSSugriz'' gyr_grid =
     Inr \<lparr>columns = [''g''],
          rows = [\<lparr>EEP = 2, MMo = 1 / 10, age = 9, feh = 0, vals = [25 / 2]\<rparr>,
                  \<lparr>EEP = 3, MMo = 3 / 25, age = 9, feh = 0, vals = [121 / 10]\<rparr>],
          index = [(0, 9), (0, 9)]\<rparr> \<and>
   \<lparr>EEP = 2, MMo = 1 / 10, age = 1, feh = 0, vals = [25 / 2]\<rparr> \<in> set (rows gyr_grid) \<and>
   age \<lparr>EEP = 2, MMo = 1 / 10, age = 1, feh = 0, vals = [25 / 2]\<rparr> = 1 \<and>
   \<lparr>EEP = 2, MMo = 1 / 10, age = 1, feh = 0, vals = [25 / 2]\<rparr>\<lparr>age := 9\<rparr>
     \<in> set [\<lparr>EEP = 2, MMo = 1 / 10, age = 9, feh = 0, vals = [25 / 2]\<rparr>,
             \<lparr>EEP = 3, MMo = 3 / 25, age = 9, feh = 0, vals = [121 / 10]\<rparr>] \<and>
   ''SDSSugriz'' \<noteq> ''HST_WFPC2'' \<and>
   (\<exists>out. df_all ''SDSSugriz'' gyr_grid = Inr out)"
proof -
  let ?r = "\<lparr>EEP = 2, MMo = 1 / 10, age = 1, feh = 0, vals = [25 / 2]\<rparr>"
  let ?out = "\<lparr>columns = [''g''],
          rows = [\<lparr>EEP = 2, MMo = 1 / 10, age = 9, feh = 0, vals = [25 / 2]\<rparr>,
                  \<lparr>EEP = 3, MMo = 3 / 25, age = 9, feh = 0, vals = [121 / 10]\<rparr>],
          index = [(0::real, 9::real), (0, 9)]\<rparr>"
  have m: "?r \<in> set (rows gyr_grid)" by (simp add: gyr_grid_def)
  have a: "age ?r = 1" by simp
  have p: "''SDSSugriz'' \<noteq> ''HST_WFPC2''" by simp
  from p df_all_log_age [of "''SDSSugriz''" gyr_grid]
  have t: "\<exists>out. df_all ''SDSSugriz'' gyr_grid = Inr out" by blast
  from df_all_log_age [of "''SDSSugriz''" gyr_grid] df_all_gyr_grid m a
  have "?r\<lparr>age := 9\<rparr> \<in> set (rows ?out)" by blast
  then have "?r\<lparr>age := 9\<rparr> \<in> set [\<lparr>EEP = 2, MMo = 1 / 10, age = 9, feh = 0, vals = [25 / 2]\<rparr>,
             \<lparr>EEP = 3, MMo = 3 / 25, age = 9, feh = 0, vals = [121 / 10]\<rparr>]"
    by (simp only: grid_df.select_convs)
  with df_all_gyr_grid m a p t show ?thesis by blast
qed

lemma df_all_index_mset:
  assumes "df_all phot df = Inr out"
  shows "mset (index out) = mset (map (\<lambda>r. (feh r, log 10 (age r * 1000000000))) (rows df))"
proof -
  from df_all_rows [OF assms] have i: "index out = map (\<lambda>r. (feh r, age r)) (rows out)" by blast
  have "mset (index out) = image_mset (\<lambda>r. (feh r, age r)) (mset (rows out))"
    unfolding i by (simp only: mset_map)
  also have "\<dots> = image_mset (\<lambda>r. (feh r, age r))
      (mset (map (\<lambda>r. r\<lparr>age := log 10 (age r * 1000000000)\<rparr>) (rows df)))"
    by (simp only: df_all_mset [OF assms])
  also have "\<dots> = mset (map (\<lambda>r. (feh r, log 10 (age r * 1000000000))) (rows df))"
    by (simp add: multiset.map_comp comp_def)
  finally show ?thesis .
qed

text \<open>
  C8 (amended). The row index \<open>df_all\<close> sets is the \<open>(feh, age)\<close> pair of each row of
  the table sorted by \<open>(feh, age, MMo, EEP)\<close>. Two rows share an index key exactly when
  they have the same metallicity and the same stored age, so the index is unique exactly
  when no two rows agree in both.
\<close>

theorem df_all_index:
  "df_all phot df = Inr out \<longrightarrow>
     index out = map (\<lambda>r. (feh r, age r)) (rows out) \<and>
     sorted (map (\<lambda>r. (feh r, age r, MMo r, EEP r)) (rows out)) \<and>
     (\<forall>i<length (rows out). \<forall>j<length (rows out).
        index out ! i = index out ! j \<longleftrightarrow>
        feh (rows out ! i) = feh (rows out ! j) \<and> age (rows out ! i) = age (rows out ! j)) \<and>
     (distinct (index out) \<longleftrightarrow>
        distinct (map (\<lambda>r. (feh r, log 10 (age r * 1000000000))) (rows df)))"
proof (intro impI conjI allI)
  assume o: "df_all phot df = Inr out"
  from df_all_rows [OF o] show i: "index out = map (\<lambda>r. (feh r, age r)) (rows out)" by blast
  from df_all_rows [OF o] show "sorted (map (\<lambda>r. (feh r, age r, MMo r, EEP r)) (rows out))"
    unfolding sort_values_def by (simp only: sorted_sort_key)
  show "distinct (index out) \<longleftrightarrow>
        distinct (map (\<lambda>r. (feh r, log 10 (age r * 1000000000))) (rows df))"
    using df_all_index_mset [OF o] by (rule mset_eq_imp_distinct_iff)
  fix i j
  assume "i < length (rows out)" "j < length (rows out)"
  then show "index out ! i = index out ! j \<longleftrightarrow>
        feh (rows out ! i) = feh (rows out ! j) \<and> age (rows out ! i) = age (rows out ! j)"
    unfolding i by simp
qed

theorem df_all_index_witness:
  "df_all ''SDSSugriz'' gyr_grid =
     Inr \<lparr>columns = [''g''],
          rows = [\<lparr>EEP = 2, MMo = 1 / 10, age = 9, feh = 0, vals = [25 / 2]\<rparr>,
                  \<lparr>EEP = 3, MMo = 3 / 25, age = 9, feh = 0, vals = [121 / 10]\<rparr>],
          index = [(0, 9), (0, 9)]\<rparr> \<and>
   sorted [(0 :: real, 9 :: real, 1 / 10 :: real, 2 :: real), (0, 9, 3 / 25, 3)] \<and>
   \<not> distinct (map (\<lambda>r. (feh r, log 10 (age r * 1000000000))) (rows gyr_grid))"
proof -
  let ?out = "\<lparr>columns = [''g''],
          rows = [\<lparr>EEP = 2, MMo = 1 / 10, age = 9, feh = 0, vals = [25 / 2]\<rparr>,
                  \<lparr>EEP = 3, MMo = 3 / 25, age = 9, feh = 0, vals = [121 / 10]\<rparr>],
          index = [(0::real, 9::real), (0, 9)]\<rparr>"
  from df_all_index [of "''SDSSugriz''" gyr_grid ?out] df_all_gyr_grid
  have s: "sorted (map (\<lambda>r. (feh r, age r, MMo r, EEP r)) (rows ?out))"
    and d: "distinct (index ?out) \<longleftrightarrow>
        distinct (map (\<lambda>r. (feh r, log 10 (age r * 1000000000))) (rows gyr_grid))"
    by blast+
  from s have s': "sorted [(0 :: real, 9 :: real, 1 / 10 :: real, 2 :: real), (0, 9, 3 / 25, 3)]"
    by simp
  have "\<not> distinct (index ?out)" by simp
  with d have "\<not> distinct (map (\<lambda>r. (feh r, log 10 (age r * 1000000000))) (rows gyr_grid))"
    by blast
  with df_all_gyr_grid s' show ?thesis by blast
qed

text \<open>
  C8 as stated fails: two masses of one isochrone get the same index key.
\<close>

theorem df_all_index_not_unique_counterexample:
  "df_all ''SDSSugriz'' gyr_grid =
     Inr \<lparr>columns = [''g''],
          rows = [\<lparr>EEP = 2, MMo = 1 / 10, age = 9, feh = 0, vals = [25 / 2]\<rparr>,
                  \<lparr>EEP = 3, MMo = 3 / 25, age = 9, feh = 0, vals = [121 / 10]\<rparr>],
          index = [(0, 9), (0, 9)]\<rparr> \<and>
   \<not> distinct [(0 :: real, 9 :: real), (0, 9)]"
  using df_all_gyr_grid by simp

subsection \<open>Saving and loading a fitted model\<close>

lemma isclose_refl: "isclose x x"
  by (simp add: isclose_def)

lemma allclose_refl: "allclose a a"
  unfolding allclose_def by (simp add: list_all2_same isclose_refl)

lemma save_hdf_state:
  "save_hdf filename model st =
     st\<lparr>files := (files st)(filename \<mapsto> \<lparr>sample_table = samples model, band_list = ic_bands model\<rparr>)\<rparr>"
  by (simp add: save_hdf_def open_file_def close_file_def Let_def)

lemma load_hdf_saved:
  "load_hdf filename (save_hdf filename model st) = (Inr model, save_hdf filename model st)"
  by (simp add: save_hdf_state load_hdf_def open_file_def close_file_def Let_def)

lemma handlers_none:
  "filename \<notin> set (open_files st) \<Longrightarrow> get_handlers_by_name st filename = []"
  by (auto simp: get_handlers_by_name_def filter_empty_conv)

text \<open>
  C9. Saving a model and loading the file back gives a model with the same sample table
  (so \<open>np.allclose\<close> holds) and the same band list; neither operation changes the list
  of open handles, so a file with no handle before has none after the save and none
  after the load, and the test \<open>_check_saving\<close> passes, leaving the file removed.
\<close>

theorem save_load_roundtrip:
  "(\<exists>st2 newmod. load_hdf filename (save_hdf filename model st) = (Inr newmod, st2) \<and>
      samples newmod = samples model \<and> allclose (samples model) (samples newmod) \<and>
      ic_bands newmod = ic_bands model \<and>
      open_files (save_hdf filename model st) = open_files st \<and> open_files st2 = open_files st) \<and>
   (filename \<notin> set (open_files st) \<longrightarrow>
      get_handlers_by_name (save_hdf filename model st) filename = [] \<and>
      get_handlers_by_name (snd (load_hdf filename (save_hdf filename model st))) filename = [] \<and>
      check_saving filename model st = Inr (st\<lparr>files := (files st)(filename := None)\<rparr>))"
proof (intro conjI impI)
  have "samples model = samples model \<and> allclose (samples model) (samples model) \<and>
      ic_bands model = ic_bands model \<and>
      open_files (save_hdf filename model st) = open_files st"
    by (simp add: allclose_refl save_hdf_state)
  with load_hdf_saved [of filename model st]
  show "\<exists>st2 newmod. load_hdf filename (save_hdf filename model st) = (Inr newmod, st2) \<and>
      samples newmod = samples model \<and> allclose (samples model) (samples newmod) \<and>
      ic_bands newmod = ic_bands model \<and>
      open_files (save_hdf filename model st) = open_files st \<and> open_files st2 = open_files st"
    by blast
next
  assume n: "filename \<notin> set (open_files st)"
  then have n': "filename \<notin> set (open_files (save_hdf filename model st))"
    by (simp add: save_hdf_state)
  from handlers_none [OF n']
  show h: "get_handlers_by_name (save_hdf filename model st) filename = []" .
  then show "get_handlers_by_name (snd (load_hdf filename (save_hdf filename model st))) filename = []"
    by (simp add: load_hdf_saved)
  have "(save_hdf filename model st)\<lparr>files := (files (save_hdf filename model st))(filename := None)\<rparr> =
        st\<lparr>files := (files st)(filename := None)\<rparr>"
    by (simp add: save_hdf_state)
  with h show "check_saving filename model st = Inr (st\<lparr>files := (files st)(filename := None)\<rparr>)"
    by (simp add: check_saving_def Let_def load_hdf_saved allclose_refl)
qed

theorem save_load_roundtrip_witness:
  "''/tmp/42.h5'' \<notin> set (open_files \<lparr>files = Map.empty, open_files = []\<rparr>) \<and>
   check_saving ''/tmp/42.h5'' \<lparr>samples = [[1, 2], [3, 4]], ic_bands = [''B'', ''V'']\<rparr>
       \<lparr>files = Map.empty, open_files = []\<rparr> =
     Inr \<lparr>files = Map.empty, open_files = []\<rparr>"
proof -
  have n: "''/tmp/42.h5'' \<notin> set (open_files \<lparr>files = Map.empty, open_files = []\<rparr>)" by simp
  from n save_load_roundtrip [of "''/tmp/42.h5''"
      "\<lparr>samples = [[1, 2], [3, 4]], ic_bands = [''B'', ''V'']\<rparr>"
      "\<lparr>files = Map.empty, open_files = []\<rparr>"]
  have "check_saving ''/tmp/42.h5'' \<lparr>samples = [[1, 2], [3, 4]], ic_bands = [''B'', ''V'']\<rparr>
       \<lparr>files = Map.empty, open_files = []\<rparr> =
     Inr (\<lparr>files = Map.empty, open_files = []\<rparr>\<lparr>files :=
        (files \<lparr>files = Map.empty, open_files = []\<rparr>)(''/tmp/42.h5'' := None)\<rparr>)"
    by blast
  with n show ?thesis by simp
qed

end
